theory Spec2Isabelle
  imports Complex_Main
begin

section \<open>The OTP model (models/OTP, listed at the end of OTP_COMPLETE_GUIDE.md)\<close>

text \<open>
  Times are milliseconds since the epoch, as \<open>Date.now()\<close> gives them; a \<open>Date\<close> compared
  with a number is its millisecond value. One \<open>now\<close> stands for the clock readings of one
  call. Emails and codes are strings (\<open>otpDoc.otp !== otp\<close> is inequality of strings). The
  routes pass emails they have lower-cased and trimmed, on which the setters \<open>lowercase\<close>
  and \<open>trim\<close> of the schema change nothing: the model stores and compares the email as
  given. The \<open>purpose\<close> path of the schema is a string with the enum validator
  \<open>['email_verification', 'password_reset']\<close>: the two values are the constructors of a
  datatype.
\<close>

datatype purpose = email_verification | password_reset

record otp_doc =
  oid :: nat
  email :: string
  otp :: string
  purpose :: purpose
  attempts :: int
  expiresAt :: int
  verified :: bool
  createdAt :: int

text \<open>
  The collection is the list of its documents in insertion order; \<open>oid\<close> is the document's
  \<open>_id\<close>. The TTL index on \<open>expiresAt\<close> (a background job of the database) is outside the
  model: a document stays until an operation of the model removes it.
\<close>

type_synonym otp_store = "otp_doc list"

text \<open>\<open>otpSchema.methods.isExpired\<close>: \<open>Date.now() > this.expiresAt\<close>.\<close>

definition isExpired :: "int \<Rightarrow> otp_doc \<Rightarrow> bool" where
  "isExpired now d \<longleftrightarrow> now > expiresAt d"

text \<open>\<open>otpSchema.methods.hasExceededAttempts\<close>: \<open>this.attempts >= 3\<close>.\<close>

definition hasExceededAttempts :: "otp_doc \<Rightarrow> bool" where
  "hasExceededAttempts d \<longleftrightarrow> attempts d \<ge> 3"

subsection \<open>Number to string\<close>

definition digit_char :: "nat \<Rightarrow> char" where
  "digit_char n = char_of (48 + n)"

text \<open>\<open>Number.prototype.toString\<close> on an integer (below \<open>1e21\<close>): its decimal digits.\<close>

fun toString_nat :: "nat \<Rightarrow> string" where
  "toString_nat n =
     (if n < 10 then [digit_char n]
      else toString_nat (n div 10) @ [digit_char (n mod 10)])"

declare toString_nat.simps [simp del]

definition toString_int :: "int \<Rightarrow> string" where
  "toString_int i = (if i < 0 then CHR ''-'' # toString_nat (nat (- i)) else toString_nat (nat i))"

text \<open>The value of a string of decimal digits, to read a code back.\<close>

definition is_digit :: "char \<Rightarrow> bool" where
  "is_digit c \<longleftrightarrow> 48 \<le> (of_char c :: nat) \<and> (of_char c :: nat) \<le> 57"

definition decimal_value :: "string \<Rightarrow> nat" where
  "decimal_value s = foldl (\<lambda>a c. 10 * a + ((of_char c :: nat) - 48)) 0 s"

subsection \<open>generateOTP\<close>

text \<open>
  A JavaScript number is an IEEE 754 binary64 value, and \<open>*\<close> and \<open>+\<close> round the exact
  result to the nearest such value, ties to the even significand. A double is a real here;
  \<open>fl\<close> is the rounding: the unit in the last place of \<open>x\<close> is \<open>2\<close> to the power
  \<open>\<lfloor>log\<^sub>2 \<bar>x\<bar>\<rfloor> - 52\<close> (53 significant bits), and \<open>2\<close> to the power \<open>-1074\<close> for subnormal
  values. Overflow to infinity is not modelled (no value below exceeds a million).
\<close>

definition round_ties_even :: "real \<Rightarrow> int" where
  "round_ties_even x =
     (let n = \<lfloor>x\<rfloor>; f = x - of_int n
      in if f < 1 / 2 then n else if f > 1 / 2 then n + 1 else if even n then n else n + 1)"

definition ulp_exponent :: "real \<Rightarrow> int" where
  "ulp_exponent x = max (\<lfloor>log 2 \<bar>x\<bar>\<rfloor> - 52) (- 1074)"

definition fl :: "real \<Rightarrow> real" where
  "fl x =
     (if x = 0 then 0
      else of_int (round_ties_even (x / 2 powr of_int (ulp_exponent x)))
             * 2 powr of_int (ulp_exponent x))"

text \<open>The reals that are doubles, and the two operations of the formula.\<close>

definition is_double :: "real \<Rightarrow> bool" where
  "is_double x \<longleftrightarrow> fl x = x"

definition double_mul :: "real \<Rightarrow> real \<Rightarrow> real" where
  "double_mul a b = fl (a * b)"

definition double_add :: "real \<Rightarrow> real \<Rightarrow> real" where
  "double_add a b = fl (a + b)"

text \<open>
  \<open>Math.floor(100000 + Math.random() * 900000).toString()\<close>. The draw of \<open>Math.random()\<close>
  is the argument \<open>r\<close>, a double; \<open>Math.floor\<close> is exact, and \<open>toString\<close> of an integral
  double of this size is its decimal notation.
\<close>

definition generateOTP :: "real \<Rightarrow> string" where
  "generateOTP r = toString_int \<lfloor>double_add 100000 (double_mul r 900000)\<rfloor>"

subsection \<open>Queries and updates of the collection\<close>

text \<open>The filter \<open>{ email, purpose, verified: false }\<close>.\<close>

definition matching :: "string \<Rightarrow> purpose \<Rightarrow> otp_doc \<Rightarrow> bool" where
  "matching e p d \<longleftrightarrow> email d = e \<and> purpose d = p \<and> \<not> verified d"

text \<open>
  \<open>.sort({ createdAt: -1 })\<close> and the first document: a document of greatest \<open>createdAt\<close>.
  Among documents of equal \<open>createdAt\<close> the database is free to choose; the model takes the
  first in collection order.
\<close>

fun latest :: "otp_doc list \<Rightarrow> otp_doc option" where
  "latest [] = None"
| "latest (d # ds) =
     (case latest ds of
        None \<Rightarrow> Some d
      | Some d' \<Rightarrow> if createdAt d' > createdAt d then Some d' else Some d)"

definition findOne_latest :: "otp_store \<Rightarrow> string \<Rightarrow> purpose \<Rightarrow> otp_doc option" where
  "findOne_latest st e p = latest (filter (matching e p) st)"

text \<open>\<open>deleteMany({ email, purpose, verified: false })\<close>.\<close>

definition deleteMany :: "string \<Rightarrow> purpose \<Rightarrow> otp_store \<Rightarrow> otp_store" where
  "deleteMany e p st = filter (\<lambda>d. \<not> matching e p d) st"

text \<open>\<open>doc.deleteOne()\<close> removes the document with the \<open>_id\<close> of \<open>doc\<close>.\<close>

definition deleteOne :: "otp_doc \<Rightarrow> otp_store \<Rightarrow> otp_store" where
  "deleteOne d st = filter (\<lambda>x. oid x \<noteq> oid d) st"

text \<open>
  \<open>doc.save()\<close> on a fetched document writes its fields to the document with its \<open>_id\<close>.
  The schema's validator \<open>max: 5\<close> on \<open>attempts\<close> would make \<open>save\<close> throw above 5;
  \<open>verifyOTP\<close> saves only after \<open>hasExceededAttempts\<close> was false, so with at most 3
  (lemma \<open>verifyOTP_saved_attempts\<close> below).
\<close>

definition save :: "otp_doc \<Rightarrow> otp_store \<Rightarrow> otp_store" where
  "save d st = map (\<lambda>x. if oid x = oid d then d else x) st"

text \<open>A fresh \<open>_id\<close> for a created document.\<close>

definition fresh_oid :: "otp_store \<Rightarrow> nat" where
  "fresh_oid st = Suc (foldr max (map oid st) 0)"

subsection \<open>createOTP\<close>

datatype otp_error = ValidationError

text \<open>
  \<open>createOTP(email, purpose, expiryMinutes)\<close>: \<open>deleteMany\<close>, then \<open>generateOTP\<close>, then
  \<open>create\<close> with \<open>attempts\<close>, \<open>verified\<close> and \<open>createdAt\<close> at their defaults. \<open>create\<close>
  validates the document: \<open>email\<close> is \<open>required\<close>, which rejects the empty string, and then
  it throws after the \<open>deleteMany\<close> has happened (the other required paths are never empty
  here).
\<close>

definition createOTP ::
  "otp_store \<Rightarrow> int \<Rightarrow> real \<Rightarrow> string \<Rightarrow> purpose \<Rightarrow> int \<Rightarrow> (otp_error + otp_doc) \<times> otp_store" where
  "createOTP st now r e p expiryMinutes =
     (let st1 = deleteMany e p st;
          code = generateOTP r;
          exp = now + expiryMinutes * 60 * 1000;
          d = \<lparr>oid = fresh_oid st, email = e, otp = code, purpose = p, attempts = 0,
               expiresAt = exp, verified = False, createdAt = now\<rparr>
      in if e = [] then (Inl ValidationError, st1) else (Inr d, st1 @ [d]))"

subsection \<open>verifyOTP\<close>

record verify_result =
  success :: bool
  message :: string
  attemptsRemaining :: "int option"

definition verifyOTP ::
  "otp_store \<Rightarrow> int \<Rightarrow> string \<Rightarrow> string \<Rightarrow> purpose \<Rightarrow> verify_result \<times> otp_store" where
  "verifyOTP st now e code p =
     (case findOne_latest st e p of
        None \<Rightarrow>
          (\<lparr>success = False, message = ''OTP not found or already used'',
            attemptsRemaining = None\<rparr>, st)
      | Some d \<Rightarrow>
          if isExpired now d then
            (\<lparr>success = False, message = ''OTP has expired. Please request a new one'',
              attemptsRemaining = None\<rparr>, deleteOne d st)
          else if hasExceededAttempts d then
            (\<lparr>success = False, message = ''Too many failed attempts. Please request a new OTP'',
              attemptsRemaining = None\<rparr>, deleteOne d st)
          else if otp d \<noteq> code then
            (let d' = d\<lparr>attempts := attempts d + 1\<rparr>
             in (\<lparr>success = False,
                  message = ''Invalid OTP. '' @ toString_int (3 - attempts d') @ '' attempts remaining'',
                  attemptsRemaining = Some (3 - attempts d')\<rparr>, save d' st))
          else
            (let d' = d\<lparr>verified := True, attempts := attempts d + 1\<rparr>
             in (\<lparr>success = True, message = ''OTP verified successfully'',
                  attemptsRemaining = None\<rparr>, save d' st)))"

subsection \<open>Histories of the collection\<close>

text \<open>
  The operations that write the collection: \<open>createOTP\<close>, \<open>verifyOTP\<close>, and the
  \<open>otpDoc.deleteOne()\<close> with which a route takes back a code it could not send. A history
  is a list of them, applied from the empty collection.
\<close>

datatype otp_op =
    Create int real string purpose int
  | Verify int string string purpose
  | DeleteOne otp_doc

fun apply_op :: "otp_store \<Rightarrow> otp_op \<Rightarrow> otp_store" where
  "apply_op st (Create now r e p m) = snd (createOTP st now r e p m)"
| "apply_op st (Verify now e code p) = snd (verifyOTP st now e code p)"
| "apply_op st (DeleteOne d) = deleteOne d st"

definition otp_inv :: "otp_store \<Rightarrow> bool" where
  "otp_inv st \<longleftrightarrow>
     distinct (map oid st) \<and> (\<forall>e p. length (filter (matching e p) st) \<le> 1)"

section \<open>The rate limiter (routes/otp-auth.js)\<close>

text \<open>
  \<open>rateLimitMap\<close> is a \<open>Map\<close> from keys to objects \<open>{ count, resetTime }\<close>. The function
  reads the clock once (\<open>now\<close>); \<open>record.count += 1\<close> changes the object held by the map,
  which the model writes as an update of the map. \<open>Math.ceil(x / 1000 / 60)\<close> is the ceiling
  of the real quotient.
\<close>

record rl_record =
  count :: int
  resetTime :: int

record rl_result =
  allowed :: bool
  remaining :: int
  resetIn :: "int option"

type_synonym rate_map = "string \<rightharpoonup> rl_record"

definition checkRateLimit ::
  "rate_map \<Rightarrow> int \<Rightarrow> string \<Rightarrow> int \<Rightarrow> int \<Rightarrow> rl_result \<times> rate_map" where
  "checkRateLimit m now key maxAttempts windowMs =
     (case m key of
        None \<Rightarrow>
          (\<lparr>allowed = True, remaining = maxAttempts - 1, resetIn = None\<rparr>,
           m(key \<mapsto> \<lparr>count = 1, resetTime = now + windowMs\<rparr>))
      | Some rec \<Rightarrow>
          if now > resetTime rec then
            (\<lparr>allowed = True, remaining = maxAttempts - 1, resetIn = None\<rparr>,
             m(key \<mapsto> \<lparr>count = 1, resetTime = now + windowMs\<rparr>))
          else if count rec \<ge> maxAttempts then
            (\<lparr>allowed = False, remaining = 0,
              resetIn = Some \<lceil>real_of_int (resetTime rec - now) / 1000 / 60\<rceil>\<rparr>, m)
          else
            (\<lparr>allowed = True, remaining = maxAttempts - (count rec + 1), resetIn = None\<rparr>,
             m(key \<mapsto> rec\<lparr>count := count rec + 1\<rparr>)))"

text \<open>Successive calls for one key with the same limits, at the given clock readings.\<close>

fun run_calls ::
  "rate_map \<Rightarrow> string \<Rightarrow> int \<Rightarrow> int \<Rightarrow> int list \<Rightarrow> rl_result list \<times> rate_map" where
  "run_calls m key maxAttempts windowMs [] = ([], m)"
| "run_calls m key maxAttempts windowMs (t # ts) =
     (let (r, m') = checkRateLimit m t key maxAttempts windowMs;
          (rs, m'') = run_calls m' key maxAttempts windowMs ts
      in (r # rs, m''))"

section \<open>The routes (routes/otp-auth.js)\<close>

subsection \<open>Strings\<close>

text \<open>
  Request fields are strings; a missing field and the empty string are both falsy and are
  both the empty string here. Characters are bytes: \<open>toLowerCase\<close>, \<open>trim\<close> and the
  regular expressions are modelled on ASCII.
\<close>

definition is_space :: "char \<Rightarrow> bool" where
  "is_space c \<longleftrightarrow> c \<in> set [CHR 0x20, CHR 0x09, CHR 0x0A, CHR 0x0B, CHR 0x0C, CHR 0x0D]"

definition is_upper :: "char \<Rightarrow> bool" where
  "is_upper c \<longleftrightarrow> 65 \<le> (of_char c :: nat) \<and> (of_char c :: nat) \<le> 90"

definition is_lower :: "char \<Rightarrow> bool" where
  "is_lower c \<longleftrightarrow> 97 \<le> (of_char c :: nat) \<and> (of_char c :: nat) \<le> 122"

definition toLowerCase :: "string \<Rightarrow> string" where
  "toLowerCase s = map (\<lambda>c. if is_upper c then char_of ((of_char c :: nat) + 32) else c) s"

definition trim :: "string \<Rightarrow> string" where
  "trim s = rev (dropWhile is_space (rev (dropWhile is_space s)))"

text \<open>\<open>email.toLowerCase().trim()\<close>.\<close>

definition normalize_email :: "string \<Rightarrow> string" where
  "normalize_email e = trim (toLowerCase e)"

text \<open>\<open>s.includes(sub)\<close> and \<open>s.endsWith(suf)\<close>.\<close>

fun str_includes :: "string \<Rightarrow> string \<Rightarrow> bool" where
  "str_includes [] sub = (sub = [])"
| "str_includes (c # cs) sub = (take (length sub) (c # cs) = sub \<or> str_includes cs sub)"

definition endsWith :: "string \<Rightarrow> string \<Rightarrow> bool" where
  "endsWith s suf \<longleftrightarrow> length suf \<le> length s \<and> drop (length s - length suf) s = suf"

text \<open>
  \<open>isValidEmail\<close>: the regular expression \<open>/^[^\s@]+@[^\s@]+\.[^\s@]+$/\<close>. No part may
  hold an \<open>@\<close>, so the \<open>@\<close> of the pattern is the first of the string: before it a
  non-empty run without white space, after it a run without white space or \<open>@\<close> that has
  a dot with at least one character on each side.
\<close>

definition isValidEmail :: "string \<Rightarrow> bool" where
  "isValidEmail e \<longleftrightarrow>
     (let local = takeWhile (\<lambda>c. c \<noteq> CHR ''@'') e;
          rest = dropWhile (\<lambda>c. c \<noteq> CHR ''@'') e;
          domain = tl rest
      in local \<noteq> [] \<and> list_all (\<lambda>c. \<not> is_space c) local \<and> rest \<noteq> []
         \<and> list_all (\<lambda>c. \<not> is_space c \<and> c \<noteq> CHR ''@'') domain
         \<and> CHR ''.'' \<in> set (butlast (tl domain)))"

definition isGmailAddress :: "string \<Rightarrow> bool" where
  "isGmailAddress e \<longleftrightarrow> endsWith (toLowerCase e) ''@gmail.com''"

definition isStrongPassword :: "string \<Rightarrow> bool" where
  "isStrongPassword password \<longleftrightarrow>
     length password \<ge> 8 \<and> list_ex is_upper password \<and> list_ex is_lower password
     \<and> list_ex is_digit password"

subsection \<open>Users, tokens, the environment\<close>

text \<open>
  The user schema (models/User) is not among the sources; the record has the fields the
  routes read and write, and \<open>create\<close> leaves the others at empty defaults. \<open>findOne\<close>
  returns the first user with the email, \<open>save\<close> writes the user with the same \<open>_id\<close>.
\<close>

record user =
  u_id :: nat
  u_name :: string
  u_email :: string
  u_password :: string
  isEmailVerified :: bool
  emailVerifiedAt :: "int option"
  isDeleted :: bool
  lastLoginAt :: "int option"
  passwordResetAt :: "int option"
  failedLoginAttempts :: int
  accountLockedUntil :: "int option"
  role :: string
  isAdmin :: bool

definition findUser :: "user list \<Rightarrow> string \<Rightarrow> user option" where
  "findUser us e = find (\<lambda>u. u_email u = e) us"

definition saveUser :: "user \<Rightarrow> user list \<Rightarrow> user list" where
  "saveUser u us = map (\<lambda>x. if u_id x = u_id u then u else x) us"

definition fresh_uid :: "user list \<Rightarrow> nat" where
  "fresh_uid us = Suc (foldr max (map u_id us) 0)"

text \<open>
  The payload of a token: \<open>{ userId }\<close> for a session, \<open>{ email, purpose }\<close> for a reset
  credential; a path that is absent is \<open>None\<close>.
\<close>

record jwt_payload =
  p_userId :: "nat option"
  p_email :: "string option"
  p_purpose :: "string option"

text \<open>
  What a request meets outside the routes: the clock, the draw of \<open>Math.random()\<close>, the
  outcome of sending the email (\<open>None\<close> when it was sent, \<open>Some m\<close> when the email service
  threw an \<open>Error\<close> with message \<open>m\<close>), and the primitives \<open>bcrypt.hash\<close>,
  \<open>bcrypt.compare\<close>, \<open>jwt.sign\<close> (payload and \<open>expiresIn\<close>) and \<open>jwt.verify\<close> (\<open>None\<close>
  when it throws: bad signature or expired), with \<open>JWT_SECRET\<close> fixed. Failures of the
  database itself are not modelled.
\<close>

record env =
  clock :: int
  math_random :: real
  mail_error :: "string option"
  bcrypt_hash :: "string \<Rightarrow> string"
  bcrypt_compare :: "string \<Rightarrow> string \<Rightarrow> bool"
  jwt_sign :: "jwt_payload \<Rightarrow> string \<Rightarrow> string"
  jwt_verify :: "string \<Rightarrow> jwt_payload option"

record state =
  rateLimitMap :: rate_map
  otps :: otp_store
  users :: "user list"

subsection \<open>Responses\<close>

record user_view =
  v_id :: nat
  v_name :: string
  v_email :: string
  v_role :: string
  v_isAdmin :: bool
  v_isEmailVerified :: bool

text \<open>The status and the JSON body; a key that the body does not have is \<open>None\<close>.\<close>

record response =
  status :: nat
  body_message :: string
  body_email :: "string option"
  expiresIn :: "int option"
  body_attemptsRemaining :: "int option"
  requiresVerification :: "bool option"
  token :: "string option"
  body_user :: "user_view option"
  resetToken :: "string option"

definition reply :: "nat \<Rightarrow> string \<Rightarrow> response" where
  "reply st m =
     \<lparr>status = st, body_message = m, body_email = None, expiresIn = None,
      body_attemptsRemaining = None, requiresVerification = None, token = None,
      body_user = None, resetToken = None\<rparr>"

text \<open>The template \<open>`<prefix>${rateLimit.resetIn} minutes`\<close>.\<close>

definition retry_message :: "string \<Rightarrow> rl_result \<Rightarrow> string" where
  "retry_message prefix rateLimit =
     prefix @ (case resetIn rateLimit of Some n \<Rightarrow> toString_int n | None \<Rightarrow> ''undefined'')
       @ '' minutes''"

text \<open>The user object of the signup and login responses: \<open>role || 'user'\<close>.\<close>

definition view_of :: "user \<Rightarrow> user_view" where
  "view_of u =
     \<lparr>v_id = u_id u, v_name = u_name u, v_email = u_email u,
      v_role = (if role u = [] then ''user'' else role u), v_isAdmin = isAdmin u,
      v_isEmailVerified = isEmailVerified u\<rparr>"

definition purpose_of_string :: "string \<Rightarrow> purpose option" where
  "purpose_of_string s =
     (if s = ''email_verification'' then Some email_verification
      else if s = ''password_reset'' then Some password_reset
      else None)"

subsection \<open>POST /signup/request-otp\<close>

definition signup_request_otp ::
  "env \<Rightarrow> state \<Rightarrow> string \<Rightarrow> string \<Rightarrow> string \<Rightarrow> response \<times> state" where
  "signup_request_otp env s name req_email password =
     (if name = [] \<or> req_email = [] \<or> password = [] then
        (reply 400 ''All fields are required'', s)
      else
        let normalizedEmail = normalize_email req_email in
        if \<not> isValidEmail normalizedEmail then (reply 400 ''Invalid email format'', s)
        else if \<not> isGmailAddress normalizedEmail then
          (reply 400 ''Only Gmail addresses are allowed for registration'', s)
        else if \<not> isStrongPassword password then
          (reply 400
             ''Password must be at least 8 characters and include uppercase, lowercase, and a number'',
           s)
        else
          let (rateLimit, m) =
                checkRateLimit (rateLimitMap s) (clock env) (''signup:'' @ normalizedEmail) 3
                  (15 * 60 * 1000);
              s1 = s\<lparr>rateLimitMap := m\<rparr>
          in
          if \<not> allowed rateLimit then
            (reply 429 (retry_message ''Too many OTP requests. Please try again in '' rateLimit), s1)
          else if (case findUser (users s1) normalizedEmail of
                     Some existingUser \<Rightarrow> isEmailVerified existingUser
                   | None \<Rightarrow> False) then
            (reply 400 ''Email already registered and verified'', s1)
          else
            (case createOTP (otps s1) (clock env) (math_random env) normalizedEmail
                    email_verification 1 of
               (Inl err, st) \<Rightarrow> (reply 500 ''Server error'', s1\<lparr>otps := st\<rparr>)
             | (Inr otpDoc, st) \<Rightarrow>
                 (case mail_error env of
                    None \<Rightarrow>
                      ((reply 200 ''OTP sent to your email. Please verify within 1 minute'')
                         \<lparr>body_email := Some normalizedEmail, expiresIn := Some (1 * 60)\<rparr>,
                       s1\<lparr>otps := st\<rparr>)
                  | Some emailError \<Rightarrow>
                      let s2 = s1\<lparr>otps := deleteOne otpDoc st\<rparr> in
                      if str_includes emailError ''authentication failed''
                         \<or> str_includes emailError ''Invalid email credentials'' then
                        (reply 500 ''Email service authentication failed. Please contact support.'',
                         s2)
                      else if str_includes emailError ''connect to email server'' then
                        (reply 500 ''Unable to connect to email server. Please try again later.'',
                         s2)
                      else
                        (reply 500 ''Failed to send verification email. Please try again.'', s2))))"

subsection \<open>POST /signup/verify-otp\<close>

definition signup_verify_otp ::
  "env \<Rightarrow> state \<Rightarrow> string \<Rightarrow> string \<Rightarrow> string \<Rightarrow> string \<Rightarrow> response \<times> state" where
  "signup_verify_otp env s name req_email password code =
     (if name = [] \<or> req_email = [] \<or> password = [] \<or> code = [] then
        (reply 400 ''All fields are required'', s)
      else
        let normalizedEmail = normalize_email req_email;
            (otpVerification, st) =
              verifyOTP (otps s) (clock env) normalizedEmail code email_verification;
            s1 = s\<lparr>otps := st\<rparr>
        in
        if \<not> success otpVerification then
          ((reply 400 (message otpVerification))
             \<lparr>body_attemptsRemaining := attemptsRemaining otpVerification\<rparr>, s1)
        else
          (case findUser (users s1) normalizedEmail of
             Some user \<Rightarrow>
               if isEmailVerified user then (reply 400 ''Email already registered'', s1)
               else
                 let user' = user\<lparr>u_name := name, u_password := bcrypt_hash env password,
                               isEmailVerified := True, emailVerifiedAt := Some (clock env)\<rparr>
                 in ((reply 201 ''Account created successfully'')
                       \<lparr>token := Some (jwt_sign env
                            \<lparr>p_userId = Some (u_id user'), p_email = None, p_purpose = None\<rparr> ''7d''),
                        body_user := Some (view_of user')\<rparr>,
                     s1\<lparr>users := saveUser user' (users s1)\<rparr>)
           | None \<Rightarrow>
               let user' = \<lparr>u_id = fresh_uid (users s1), u_name = name, u_email = normalizedEmail,
                             u_password = bcrypt_hash env password, isEmailVerified = True,
                             emailVerifiedAt = Some (clock env), isDeleted = False,
                             lastLoginAt = None, passwordResetAt = None, failedLoginAttempts = 0,
                             accountLockedUntil = None, role = [], isAdmin = False\<rparr>
               in ((reply 201 ''Account created successfully'')
                     \<lparr>token := Some (jwt_sign env
                          \<lparr>p_userId = Some (u_id user'), p_email = None, p_purpose = None\<rparr> ''7d''),
                      body_user := Some (view_of user')\<rparr>,
                   s1\<lparr>users := users s1 @ [user']\<rparr>)))"

subsection \<open>POST /resend-otp\<close>

text \<open>
  The \<open>catch\<close> around the send only logs, and control goes on to the success response:
  the branch for a send that threw is that of a send that returned.
\<close>

definition resend_otp :: "env \<Rightarrow> state \<Rightarrow> string \<Rightarrow> string \<Rightarrow> response \<times> state" where
  "resend_otp env s req_email purpose_field =
     (if req_email = [] \<or> purpose_field = [] then (reply 400 ''Email and purpose are required'', s)
      else
        let normalizedEmail = normalize_email req_email in
        case purpose_of_string purpose_field of
          None \<Rightarrow> (reply 400 ''Invalid purpose'', s)
        | Some p \<Rightarrow>
            let (rateLimit, m) =
                  checkRateLimit (rateLimitMap s) (clock env)
                    (''resend:'' @ normalizedEmail @ '':'' @ purpose_field) 3 (15 * 60 * 1000);
                s1 = s\<lparr>rateLimitMap := m\<rparr>
            in
            if \<not> allowed rateLimit then
              (reply 429 (retry_message ''Too many OTP requests. Please try again in '' rateLimit),
               s1)
            else
              (case createOTP (otps s1) (clock env) (math_random env) normalizedEmail p 1 of
                 (Inl err, st) \<Rightarrow> (reply 500 ''Server error'', s1\<lparr>otps := st\<rparr>)
               | (Inr otpDoc, st) \<Rightarrow>
                   (case mail_error env of
                      None \<Rightarrow>
                        ((reply 200 ''OTP sent successfully'')\<lparr>expiresIn := Some (1 * 60)\<rparr>,
                         s1\<lparr>otps := st\<rparr>)
                    | Some emailError \<Rightarrow>
                        ((reply 200 ''OTP sent successfully'')\<lparr>expiresIn := Some (1 * 60)\<rparr>,
                         s1\<lparr>otps := st\<rparr>))))"

subsection \<open>POST /login\<close>

text \<open>For an unverified user a new code is created; the \<open>catch\<close> around its send only logs.\<close>

definition login :: "env \<Rightarrow> state \<Rightarrow> string \<Rightarrow> string \<Rightarrow> response \<times> state" where
  "login env s req_email password =
     (if req_email = [] \<or> password = [] then (reply 400 ''Email and password are required'', s)
      else
        let normalizedEmail = normalize_email req_email;
            (rateLimit, m) =
              checkRateLimit (rateLimitMap s) (clock env) (''login:'' @ normalizedEmail) 5
                (15 * 60 * 1000);
            s1 = s\<lparr>rateLimitMap := m\<rparr>
        in
        if \<not> allowed rateLimit then
          (reply 429 (retry_message ''Too many login attempts. Please try again in '' rateLimit), s1)
        else
          (case findUser (users s1) normalizedEmail of
             None \<Rightarrow> (reply 401 ''Invalid email or password'', s1)
           | Some user \<Rightarrow>
               if isDeleted user then (reply 403 ''This account has been deleted'', s1)
               else if \<not> isEmailVerified user then
                 (case createOTP (otps s1) (clock env) (math_random env) normalizedEmail
                         email_verification 10 of
                    (Inl err, st) \<Rightarrow> (reply 500 ''Server error'', s1\<lparr>otps := st\<rparr>)
                  | (Inr otpDoc, st) \<Rightarrow>
                      (case mail_error env of
                         None \<Rightarrow>
                           ((reply 403
                               ''Email not verified. A new verification OTP has been sent to your email'')
                              \<lparr>requiresVerification := Some True,
                               body_email := Some normalizedEmail\<rparr>,
                            s1\<lparr>otps := st\<rparr>)
                       | Some emailError \<Rightarrow>
                           ((reply 403
                               ''Email not verified. A new verification OTP has been sent to your email'')
                              \<lparr>requiresVerification := Some True,
                               body_email := Some normalizedEmail\<rparr>,
                            s1\<lparr>otps := st\<rparr>)))
               else if \<not> bcrypt_compare env password (u_password user) then
                 (reply 401 ''Invalid email or password'', s1)
               else
                 let user' = user\<lparr>lastLoginAt := Some (clock env)\<rparr>
                 in ((reply 200 ''Login successful'')
                       \<lparr>token := Some (jwt_sign env
                            \<lparr>p_userId = Some (u_id user'), p_email = None, p_purpose = None\<rparr> ''7d''),
                        body_user := Some (view_of user')\<rparr>,
                     s1\<lparr>users := saveUser user' (users s1)\<rparr>)))"

subsection \<open>POST /forgot-password/request-otp\<close>

text \<open>Here too the \<open>catch\<close> around the send only logs.\<close>

definition forgot_password_request_otp :: "env \<Rightarrow> state \<Rightarrow> string \<Rightarrow> response \<times> state" where
  "forgot_password_request_otp env s req_email =
     (if req_email = [] then (reply 400 ''Email is required'', s)
      else
        let normalizedEmail = normalize_email req_email;
            (rateLimit, m) =
              checkRateLimit (rateLimitMap s) (clock env) (''forgot:'' @ normalizedEmail) 3
                (15 * 60 * 1000);
            s1 = s\<lparr>rateLimitMap := m\<rparr>
        in
        if \<not> allowed rateLimit then
          (reply 429
             (retry_message ''Too many password reset requests. Please try again in '' rateLimit),
           s1)
        else
          (case findUser (users s1) normalizedEmail of
             None \<Rightarrow> (reply 404 ''No account found with this email address'', s1)
           | Some user \<Rightarrow>
               if isDeleted user then
                 (reply 403 ''This account has been deleted. Please contact support.'', s1)
               else
                 (case createOTP (otps s1) (clock env) (math_random env) normalizedEmail
                         password_reset 1 of
                    (Inl err, st) \<Rightarrow> (reply 500 ''Server error'', s1\<lparr>otps := st\<rparr>)
                  | (Inr otpDoc, st) \<Rightarrow>
                      (case mail_error env of
                         None \<Rightarrow>
                           ((reply 200 ''Password reset OTP sent to your email'')
                              \<lparr>expiresIn := Some (1 * 60)\<rparr>,
                            s1\<lparr>otps := st\<rparr>)
                       | Some emailError \<Rightarrow>
                           ((reply 200 ''Password reset OTP sent to your email'')
                              \<lparr>expiresIn := Some (1 * 60)\<rparr>,
                            s1\<lparr>otps := st\<rparr>)))))"

subsection \<open>POST /forgot-password/verify-otp\<close>

definition forgot_password_verify_otp ::
  "env \<Rightarrow> state \<Rightarrow> string \<Rightarrow> string \<Rightarrow> response \<times> state" where
  "forgot_password_verify_otp env s req_email code =
     (if req_email = [] \<or> code = [] then (reply 400 ''Email and OTP are required'', s)
      else
        let normalizedEmail = normalize_email req_email;
            (otpVerification, st) =
              verifyOTP (otps s) (clock env) normalizedEmail code password_reset;
            s1 = s\<lparr>otps := st\<rparr>
        in
        if \<not> success otpVerification then
          ((reply 400 (message otpVerification))
             \<lparr>body_attemptsRemaining := attemptsRemaining otpVerification\<rparr>, s1)
        else
          ((reply 200 ''OTP verified. You can now reset your password'')
             \<lparr>resetToken := Some (jwt_sign env
                  \<lparr>p_userId = None, p_email = Some normalizedEmail,
                   p_purpose = Some ''password_reset''\<rparr> ''15m'')\<rparr>,
           s1))"

subsection \<open>POST /reset-password\<close>


subsection \<open>Sample inputs\<close>

text \<open>
  Concrete inputs for the evaluations below: an environment at clock 1000 whose draw is
  the double \<open>1/2\<close> (the code \<open>550000\<close>), with stand-ins for the primitives, and a user.
\<close>

definition sample_env :: "string option \<Rightarrow> env" where
  "sample_env mail =
     \<lparr>clock = 1000, math_random = 1 / 2, mail_error = mail,
      bcrypt_hash = (\<lambda>p. ''hash:'' @ p), bcrypt_compare = (\<lambda>p h. h = ''hash:'' @ p),
      jwt_sign = (\<lambda>payload expiry. ''token''), jwt_verify = (\<lambda>t. None)\<rparr>"

definition sample_user :: "bool \<Rightarrow> user" where
  "sample_user v =
     \<lparr>u_id = 1, u_name = ''Ann'', u_email = ''a@gmail.com'', u_password = ''hash:Passw0rdX'',
      isEmailVerified = v, emailVerifiedAt = None, isDeleted = False, lastLoginAt = None,
      passwordResetAt = None, failedLoginAttempts = 0, accountLockedUntil = None, role = [],
      isAdmin = False\<rparr>"

section \<open>Properties of the OTP model\<close>

subsection \<open>Decimal strings\<close>

lemmas string_eval =
  toString_int_def toString_nat.simps digit_char_def char_of_eq_iff

lemma toString_nat_small: "n < 10 \<Longrightarrow> toString_nat n = [digit_char n]"
  by (simp add: toString_nat.simps)

lemma toString_nat_step:
  "10 \<le> n \<Longrightarrow> toString_nat n = toString_nat (n div 10) @ [digit_char (n mod 10)]"
  by (subst toString_nat.simps) simp

lemma length_toString_1: "n < 10 \<Longrightarrow> length (toString_nat n) = 1"
  by (simp add: toString_nat_small)

lemma length_toString_step:
  "10 \<le> n \<Longrightarrow> length (toString_nat n) = Suc (length (toString_nat (n div 10)))"
  by (subst toString_nat.simps) simp

lemma length_toString_2:
  assumes "10 \<le> n" "n < 100"
  shows "length (toString_nat n) = 2"
proof -
  from assms have "n div 10 < 10" by simp
  then have "length (toString_nat (n div 10)) = 1" by (rule length_toString_1)
  moreover from assms have "length (toString_nat n) = Suc (length (toString_nat (n div 10)))"
    by (intro length_toString_step) simp
  ultimately show ?thesis by simp
qed

lemma length_toString_3:
  assumes "100 \<le> n" "n < 1000"
  shows "length (toString_nat n) = 3"
proof -
  from assms have "10 \<le> n div 10" "n div 10 < 100" by simp_all
  then have "length (toString_nat (n div 10)) = 2" by (rule length_toString_2)
  moreover from assms have "length (toString_nat n) = Suc (length (toString_nat (n div 10)))"
    by (intro length_toString_step) simp
  ultimately show ?thesis by simp
qed

lemma length_toString_4:
  assumes "1000 \<le> n" "n < 10000"
  shows "length (toString_nat n) = 4"
proof -
  from assms have "100 \<le> n div 10" "n div 10 < 1000" by simp_all
  then have "length (toString_nat (n div 10)) = 3" by (rule length_toString_3)
  moreover from assms have "length (toString_nat n) = Suc (length (toString_nat (n div 10)))"
    by (intro length_toString_step) simp
  ultimately show ?thesis by simp
qed

lemma length_toString_5:
  assumes "10000 \<le> n" "n < 100000"
  shows "length (toString_nat n) = 5"
proof -
  from assms have "1000 \<le> n div 10" "n div 10 < 10000" by simp_all
  then have "length (toString_nat (n div 10)) = 4" by (rule length_toString_4)
  moreover from assms have "length (toString_nat n) = Suc (length (toString_nat (n div 10)))"
    by (intro length_toString_step) simp
  ultimately show ?thesis by simp
qed

lemma length_toString_6:
  assumes "100000 \<le> n" "n < 1000000"
  shows "length (toString_nat n) = 6"
proof -
  from assms have "10000 \<le> n div 10" "n div 10 < 100000" by simp_all
  then have "length (toString_nat (n div 10)) = 5" by (rule length_toString_5)
  moreover from assms have "length (toString_nat n) = Suc (length (toString_nat (n div 10)))"
    by (intro length_toString_step) simp
  ultimately show ?thesis by simp
qed

lemma of_char_digit_char: "n < 10 \<Longrightarrow> (of_char (digit_char n) :: nat) = 48 + n"
  by (simp add: digit_char_def)

lemma is_digit_digit_char: "n < 10 \<Longrightarrow> is_digit (digit_char n)"
  by (simp add: is_digit_def of_char_digit_char)

lemma toString_nat_digits: "c \<in> set (toString_nat n) \<Longrightarrow> is_digit c"
proof (induction n rule: toString_nat.induct)
  case (1 n)
  show ?case
  proof (cases "n < 10")
    case True
    with 1(2) show ?thesis by (simp add: toString_nat_small is_digit_digit_char)
  next
    case False
    with 1 show ?thesis by (auto simp add: toString_nat_step is_digit_digit_char)
  qed
qed

lemma decimal_value_snoc:
  "decimal_value (s @ [c]) = 10 * decimal_value s + ((of_char c :: nat) - 48)"
  by (simp add: decimal_value_def)

lemma decimal_value_toString: "decimal_value (toString_nat n) = n"
proof (induction n rule: toString_nat.induct)
  case (1 n)
  show ?case
  proof (cases "n < 10")
    case True
    then show ?thesis by (simp add: toString_nat_small decimal_value_def of_char_digit_char)
  next
    case False
    with 1 show ?thesis
      by (simp add: toString_nat_step decimal_value_snoc of_char_digit_char)
  qed
qed

lemma toString_nat_nonempty: "toString_nat n \<noteq> []"
  by (subst toString_nat.simps) simp

lemma hd_toString_nat: "0 < n \<Longrightarrow> hd (toString_nat n) \<noteq> CHR ''0''"
proof (induction n rule: toString_nat.induct)
  case (1 n)
  show ?case
  proof (cases "n < 10")
    case True
    with 1(2) have "(of_char (digit_char n) :: nat) \<noteq> 48" by (simp add: of_char_digit_char)
    then have "digit_char n \<noteq> CHR ''0''" by auto
    with True show ?thesis by (simp add: toString_nat_small)
  next
    case False
    then have "0 < n div 10" by simp
    with 1(1) False have "hd (toString_nat (n div 10)) \<noteq> CHR ''0''" by simp
    with False show ?thesis by (simp add: toString_nat_step toString_nat_nonempty)
  qed
qed

subsection \<open>Rounding to doubles\<close>

lemma round_ties_even_le: "of_int (round_ties_even x) \<le> x + 1 / 2"
  unfolding round_ties_even_def Let_def by (auto; linarith)

lemma round_ties_even_ge: "x - 1 / 2 \<le> of_int (round_ties_even x)"
  unfolding round_ties_even_def Let_def by (auto; linarith)

lemma round_ties_even_of_int: "round_ties_even (of_int n) = n"
  by (simp add: round_ties_even_def)

lemma round_ties_even_le_int:
  assumes "x < of_int n + 1 / 2"
  shows "round_ties_even x \<le> n"
proof -
  have "(of_int (round_ties_even x) :: real) < of_int n + 1"
    using round_ties_even_le [of x] assms by linarith
  then have "(of_int (round_ties_even x) :: real) < of_int (n + 1)" by simp
  then have "round_ties_even x < n + 1" by (simp only: of_int_less_iff)
  then show ?thesis by simp
qed

lemma round_ties_even_ge_int:
  assumes "of_int n - 1 / 2 < x"
  shows "n \<le> round_ties_even x"
proof -
  have "(of_int n :: real) - 1 < of_int (round_ties_even x)"
    using round_ties_even_ge [of x] assms by linarith
  then have "(of_int (n - 1) :: real) < of_int (round_ties_even x)" by simp
  then have "n - 1 < round_ties_even x" by (simp only: of_int_less_iff)
  then show ?thesis by simp
qed

lemma floor_log2_eq:
  assumes "2 powr of_int k \<le> x" "x < 2 powr of_int (k + 1)"
  shows "\<lfloor>log 2 x\<rfloor> = k"
proof -
  have pos: "0 < x" using assms(1) by (smt (verit) powr_gt_zero)
  from assms(1) pos have "of_int k \<le> log 2 x" by (simp add: le_log_iff)
  moreover from assms(2) pos have "log 2 x < of_int (k + 1)" by (simp add: log_less_iff)
  ultimately show ?thesis by (simp add: floor_eq_iff)
qed

lemma floor_log2_le:
  assumes "0 < x" "x < 2 powr of_int (k + 1)"
  shows "\<lfloor>log 2 x\<rfloor> \<le> k"
proof -
  from assms have "log 2 x < of_int (k + 1)" by (simp add: log_less_iff)
  then have "\<lfloor>log 2 x\<rfloor> < k + 1" by (simp only: floor_less_iff)
  then show ?thesis by simp
qed

lemma ulp_exponent_eq:
  assumes "2 powr of_int k \<le> x" "x < 2 powr of_int (k + 1)" "- 1022 \<le> k"
  shows "ulp_exponent x = k - 52"
proof -
  have "0 < x" using assms(1) by (smt (verit) powr_gt_zero)
  then have "\<bar>x\<bar> = x" by simp
  with floor_log2_eq [OF assms(1,2)] assms(3) show ?thesis by (simp add: ulp_exponent_def)
qed

lemma ulp_exponent_le:
  assumes "0 < x" "x < 2 powr of_int (k + 1)" "- 1022 \<le> k"
  shows "ulp_exponent x \<le> k - 52"
proof -
  from assms(1) have "\<bar>x\<bar> = x" by simp
  with floor_log2_le [OF assms(1,2)] assms(3) show ?thesis by (simp add: ulp_exponent_def)
qed

lemma fl_le: "x \<noteq> 0 \<Longrightarrow> fl x \<le> x + 2 powr of_int (ulp_exponent x) / 2"
proof -
  assume nz: "x \<noteq> 0"
  let ?u = "2 powr of_int (ulp_exponent x) :: real"
  have u: "0 < ?u" by simp
  have "of_int (round_ties_even (x / ?u)) \<le> x / ?u + 1 / 2" by (rule round_ties_even_le)
  then have "of_int (round_ties_even (x / ?u)) * ?u \<le> (x / ?u + 1 / 2) * ?u"
    using u by (simp only: mult_le_cancel_right_pos)
  also have "\<dots> = x + ?u / 2" using u by (simp add: field_simps)
  finally show ?thesis using nz by (simp add: fl_def)
qed

lemma fl_ge: "x \<noteq> 0 \<Longrightarrow> x - 2 powr of_int (ulp_exponent x) / 2 \<le> fl x"
proof -
  assume nz: "x \<noteq> 0"
  let ?u = "2 powr of_int (ulp_exponent x) :: real"
  have u: "0 < ?u" by simp
  have "x / ?u - 1 / 2 \<le> of_int (round_ties_even (x / ?u))" by (rule round_ties_even_ge)
  then have "(x / ?u - 1 / 2) * ?u \<le> of_int (round_ties_even (x / ?u)) * ?u"
    using u by (simp only: mult_le_cancel_right_pos)
  moreover have "(x / ?u - 1 / 2) * ?u = x - ?u / 2" using u by (simp add: field_simps)
  ultimately show ?thesis using nz by (simp add: fl_def)
qed

lemma fl_nonneg: "0 \<le> x \<Longrightarrow> 0 \<le> fl x"
proof (cases "x = 0")
  case True
  then show ?thesis by (simp add: fl_def)
next
  case False
  assume "0 \<le> x"
  let ?u = "2 powr of_int (ulp_exponent x) :: real"
  have "0 \<le> x / ?u" using \<open>0 \<le> x\<close> by simp
  then have "of_int 0 - 1 / 2 < x / ?u" by simp
  then have "0 \<le> round_ties_even (x / ?u)" by (rule round_ties_even_ge_int)
  then show ?thesis using False by (simp add: fl_def)
qed

lemma fl_exact:
  assumes "2 powr of_int k \<le> x" "x < 2 powr of_int (k + 1)" "- 1022 \<le> k"
    and "x = of_int n * 2 powr of_int (k - 52)"
  shows "fl x = x"
proof -
  have pos: "0 < x" using assms(1) by (smt (verit) powr_gt_zero)
  have ue: "ulp_exponent x = k - 52" using assms(1-3) by (rule ulp_exponent_eq)
  have "x / 2 powr of_int (k - 52) = of_int n" by (subst assms(4)) simp
  then show ?thesis using pos ue assms(4) by (simp add: fl_def round_ties_even_of_int)
qed


lemma fl_binade:
  assumes "2 powr of_int k \<le> x" "x < 2 powr of_int (k + 1)" "- 1022 \<le> k"
  shows "fl x = of_int (round_ties_even (x / 2 powr of_int (k - 52))) * 2 powr of_int (k - 52)"
proof -
  have pos: "0 < x" using assms(1) by (smt (verit) powr_gt_zero)
  have ue: "ulp_exponent x = k - 52" using assms by (rule ulp_exponent_eq)
  with pos show ?thesis by (simp add: fl_def)
qed

lemma fl_le_small:
  assumes "0 < x" "x < 2 powr of_int (k + 1)" "- 1022 \<le> k" "k \<le> 52"
  shows "fl x \<le> x + 1 / 2"
proof -
  have "ulp_exponent x \<le> k - 52" using assms(1-3) by (rule ulp_exponent_le)
  with assms(4) have "ulp_exponent x \<le> 0" by simp
  then have "(2::real) powr of_int (ulp_exponent x) \<le> 2 powr 0"
    by (intro powr_mono) simp_all
  then have "(2::real) powr of_int (ulp_exponent x) \<le> 1" by simp
  with fl_le [of x] assms(1) show ?thesis by simp
qed

lemma fl_ge_small:
  assumes "0 < x" "x < 2 powr of_int (k + 1)" "- 1022 \<le> k" "k \<le> 52"
  shows "x - 1 / 2 \<le> fl x"
proof -
  have "ulp_exponent x \<le> k - 52" using assms(1-3) by (rule ulp_exponent_le)
  with assms(4) have "ulp_exponent x \<le> 0" by simp
  then have "(2::real) powr of_int (ulp_exponent x) \<le> 2 powr 0"
    by (intro powr_mono) simp_all
  then have "(2::real) powr of_int (ulp_exponent x) \<le> 1" by simp
  with fl_ge [of x] assms(1) show ?thesis by simp
qed

lemma double_below_one:
  assumes "is_double r" "r < 1"
  shows "r \<le> 1 - 1 / 2 ^ 53"
proof (cases "r < 1 / 2")
  case True
  then show ?thesis by simp
next
  case False
  then have lo: "2 powr of_int (- 1) \<le> r" by (simp add: powr_minus)
  from assms(2) have hi: "r < 2 powr of_int (- 1 + 1)" by simp
  define z where "z = round_ties_even (r / 2 powr of_int (- 1 - 52))"
  have "fl r = of_int z * 2 powr of_int (- 1 - 52)"
    unfolding z_def using lo hi by (rule fl_binade) simp
  with assms(1) have r: "r = of_int z / 2 ^ 53"
    by (simp add: is_double_def powr_minus field_simps)
  with assms(2) have "(of_int z :: real) < 2 ^ 53" by (simp add: field_simps)
  then have "(of_int z :: real) < of_int (2 ^ 53)" by simp
  then have "z < 2 ^ 53" by (simp only: of_int_less_iff)
  then have "z \<le> 2 ^ 53 - 1" by simp
  then have "(of_int z :: real) \<le> of_int (2 ^ 53 - 1)" by (simp only: of_int_le_iff)
  then have "(of_int z :: real) \<le> 2 ^ 53 - 1" by simp
  then show ?thesis by (simp add: r field_simps)
qed

lemma product_bound:
  assumes "0 \<le> r" "r \<le> 1 - 1 / 2 ^ 53"
  shows "0 \<le> fl (r * 900000)" and "fl (r * 900000) \<le> 900000 - 1 / 2 ^ 33"
proof -
  let ?p = "r * 900000"
  from assms(1) have p0: "0 \<le> ?p" by simp
  then show "0 \<le> fl ?p" by (rule fl_nonneg)
  from assms(2) have pv: "?p \<le> 900000 - 900000 / 2 ^ 53" by (simp add: field_simps)
  show "fl ?p \<le> 900000 - 1 / 2 ^ 33"
  proof (cases "?p < 524288")
    case True
    show ?thesis
    proof (cases "?p = 0")
      case True
      then show ?thesis by (simp add: fl_def)
    next
      case False
      with p0 have "0 < ?p" by simp
      moreover from True have "?p < 2 powr of_int (18 + 1)" by simp
      ultimately have "fl ?p \<le> ?p + 1 / 2" by (rule fl_le_small) simp_all
      with True show ?thesis by simp
    qed
  next
    case False
    then have lo: "2 powr of_int 19 \<le> ?p" by simp
    from pv have hi: "?p < 2 powr of_int (19 + 1)" by simp
    define z where "z = round_ties_even (?p / 2 powr of_int (19 - 52))"
    have f: "fl ?p = of_int z * 2 powr of_int (19 - 52)"
      unfolding z_def using lo hi by (rule fl_binade) simp
    have "?p / 2 powr of_int (19 - 52) = ?p * 2 ^ 33" by (simp add: powr_minus field_simps)
    also from pv have "\<dots> \<le> (900000 - 900000 / 2 ^ 53) * 2 ^ 33" by simp
    also have "\<dots> < of_int (900000 * 2 ^ 33 - 1) + 1 / 2" by simp
    finally have "z \<le> 900000 * 2 ^ 33 - 1" unfolding z_def by (rule round_ties_even_le_int)
    then have "(of_int z :: real) \<le> of_int (900000 * 2 ^ 33 - 1)" by (simp only: of_int_le_iff)
    then have "(of_int z :: real) \<le> 900000 * 2 ^ 33 - 1" by simp
    then have "of_int z * 2 powr of_int (19 - 52) \<le> (900000::real) - 1 / 2 ^ 33"
      by (simp add: powr_minus field_simps)
    then show ?thesis by (simp only: f)
  qed
qed

lemma sum_bound:
  assumes "0 \<le> q" "q \<le> 900000 - 1 / 2 ^ 33"
  shows "100000 \<le> fl (100000 + q)" and "fl (100000 + q) < 1000000"
proof -
  let ?s = "100000 + q"
  from assms have s: "100000 \<le> ?s" "?s \<le> 1000000 - 1 / 2 ^ 33" by simp_all
  show "100000 \<le> fl ?s"
  proof (cases "?s < 131072")
    case True
    from s(1) have lo: "2 powr of_int 16 \<le> ?s" by simp
    from True have hi: "?s < 2 powr of_int (16 + 1)" by simp
    define z where "z = round_ties_even (?s / 2 powr of_int (16 - 52))"
    have f: "fl ?s = of_int z * 2 powr of_int (16 - 52)"
      unfolding z_def using lo hi by (rule fl_binade) simp
    have "of_int (100000 * 2 ^ 36) - 1 / 2 < (100000::real) * 2 ^ 36" by simp
    also from s(1) have "\<dots> \<le> ?s * 2 ^ 36" by simp
    also have "\<dots> = ?s / 2 powr of_int (16 - 52)" by (simp add: powr_minus field_simps)
    finally have "100000 * 2 ^ 36 \<le> z" unfolding z_def by (rule round_ties_even_ge_int)
    then have "(of_int (100000 * 2 ^ 36) :: real) \<le> of_int z" by (simp only: of_int_le_iff)
    then have "(100000::real) * 2 ^ 36 \<le> of_int z" by simp
    then have "(100000::real) \<le> of_int z * 2 powr of_int (16 - 52)"
      by (simp add: powr_minus field_simps)
    then show ?thesis by (simp only: f)
  next
    case False
    from s(1) have "0 < ?s" by simp
    moreover from s(2) have "?s < 2 powr of_int (19 + 1)" by simp
    ultimately have "?s - 1 / 2 \<le> fl ?s" by (rule fl_ge_small) simp_all
    with False show ?thesis by simp
  qed
  show "fl ?s < 1000000"
  proof (cases "?s < 524288")
    case True
    from s(1) have "0 < ?s" by simp
    moreover from True have "?s < 2 powr of_int (18 + 1)" by simp
    ultimately have "fl ?s \<le> ?s + 1 / 2" by (rule fl_le_small) simp_all
    with True show ?thesis by simp
  next
    case False
    then have lo: "2 powr of_int 19 \<le> ?s" by simp
    from s(2) have hi: "?s < 2 powr of_int (19 + 1)" by simp
    define z where "z = round_ties_even (?s / 2 powr of_int (19 - 52))"
    have f: "fl ?s = of_int z * 2 powr of_int (19 - 52)"
      unfolding z_def using lo hi by (rule fl_binade) simp
    have "?s / 2 powr of_int (19 - 52) = ?s * 2 ^ 33" by (simp add: powr_minus field_simps)
    also from s(2) have "\<dots> \<le> (1000000 - 1 / 2 ^ 33) * 2 ^ 33" by simp
    also have "\<dots> < of_int (1000000 * 2 ^ 33 - 1) + 1 / 2" by simp
    finally have "z \<le> 1000000 * 2 ^ 33 - 1" unfolding z_def by (rule round_ties_even_le_int)
    then have "(of_int z :: real) \<le> of_int (1000000 * 2 ^ 33 - 1)" by (simp only: of_int_le_iff)
    then have "(of_int z :: real) \<le> 1000000 * 2 ^ 33 - 1" by simp
    then have "of_int z * 2 powr of_int (19 - 52) < (1000000::real)"
      by (simp add: powr_minus field_simps)
    then show ?thesis by (simp only: f)
  qed
qed

lemma is_double_half: "is_double (1 / 2)"
  unfolding is_double_def
  by (rule fl_exact [of "- 1" _ "2 ^ 52"]) (simp_all add: powr_minus)

lemma fl_450000: "fl 450000 = 450000"
  by (rule fl_exact [of 18 _ "450000 * 2 ^ 34"]) (simp_all add: powr_minus)

lemma fl_550000: "fl 550000 = 550000"
  by (rule fl_exact [of 19 _ "550000 * 2 ^ 33"]) (simp_all add: powr_minus)

lemma generateOTP_half: "generateOTP (1 / 2) = ''550000''"
  by (simp add: generateOTP_def double_add_def double_mul_def fl_450000 fl_550000 string_eval)

lemma is_double_example: "is_double (150119987579 / 2 ^ 52)"
  unfolding is_double_def
  by (rule fl_exact [of "- 15" _ "150119987579 * 2 ^ 15"]) (simp_all add: powr_minus)

lemma fl_example_product:
  "fl (150119987579 / 2 ^ 52 * 900000) = 8444249301318750 / 2 ^ 48"
proof -
  have e: "(150119987579::real) / 2 ^ 52 * 900000 = 8444249301318750 / 2 ^ 48" by simp
  have "fl (8444249301318750 / 2 ^ 48) = 8444249301318750 / 2 ^ 48"
    by (rule fl_exact [of 4 _ 8444249301318750]) (simp_all add: powr_minus)
  then show ?thesis by (simp only: e)
qed

lemma fl_example_sum:
  "fl (100000 + 8444249301318750 / 2 ^ 48) = 100030"
proof -
  let ?s = "100000 + 8444249301318750 / 2 ^ 48 :: real"
  have lo: "2 powr of_int 16 \<le> ?s" by simp
  have hi: "?s < 2 powr of_int (16 + 1)" by simp
  have f: "fl ?s = of_int (round_ties_even (?s / 2 powr of_int (16 - 52))) * 2 powr of_int (16 - 52)"
    using lo hi by (rule fl_binade) simp
  have x: "?s / 2 powr of_int (16 - 52) = 6874009257902079 + 1583 / 2048"
    by (simp add: powr_minus)
  have fr: "\<lfloor>6874009257902079 + 1583 / 2048 :: real\<rfloor> = 6874009257902079"
    by (simp add: floor_eq_iff)
  have "round_ties_even (6874009257902079 + 1583 / 2048) = 6874009257902080"
    unfolding round_ties_even_def Let_def fr by simp
  then have "round_ties_even (?s / 2 powr of_int (16 - 52)) = 6874009257902080"
    by (simp only: x)
  then have "fl ?s = of_int 6874009257902080 * 2 powr of_int (16 - 52)"
    by (simp only: f)
  also have "\<dots> = 100030" by (simp add: powr_minus)
  finally show ?thesis .
qed

text \<open>
  The rounding is felt: at this draw the exact value of the formula lies below 100030, and
  the sum rounds up to it.
\<close>

lemma generateOTP_rounded_draw: "generateOTP (150119987579 / 2 ^ 52) = ''100030''"
proof -
  have "\<lfloor>double_add 100000 (double_mul (150119987579 / 2 ^ 52) 900000)\<rfloor> = 100030"
    by (simp only: double_add_def double_mul_def fl_example_product fl_example_sum) simp
  then show ?thesis by (simp add: generateOTP_def string_eval)
qed

lemma exact_value_of_rounded_draw:
  "\<lfloor>100000 + 150119987579 / 2 ^ 52 * 900000 :: real\<rfloor> = 100029"
  by (simp add: floor_eq_iff)

subsection \<open>generateOTP\<close>

text \<open>
  C10. For a draw \<open>r\<close> of \<open>Math.random()\<close>, a double with \<open>0 \<le> r < 1\<close>, \<open>generateOTP\<close>
  returns a string of exactly six characters, all decimal digits, the first of them not
  \<open>0\<close>, and the string is the decimal notation of a number between 100000 and 999999
  inclusive. The product and the sum are the rounded ones of the code.
\<close>

theorem generateOTP_six_digits:
  fixes r :: real
  assumes "is_double r" and "0 \<le> r" and "r < 1"
  shows "length (generateOTP r) = 6
       \<and> (\<forall>c\<in>set (generateOTP r). is_digit c)
       \<and> hd (generateOTP r) \<noteq> CHR ''0''
       \<and> 100000 \<le> decimal_value (generateOTP r)
       \<and> decimal_value (generateOTP r) \<le> 999999
       \<and> generateOTP r = toString_nat (decimal_value (generateOTP r))"
proof -
  define q where "q = double_mul r 900000"
  define z where "z = \<lfloor>double_add 100000 q\<rfloor>"
  define k where "k = nat z"
  from assms(1,3) have top: "r \<le> 1 - 1 / 2 ^ 53" by (rule double_below_one)
  from product_bound [OF assms(2) top] have q: "0 \<le> q" "q \<le> 900000 - 1 / 2 ^ 33"
    by (simp_all add: q_def double_mul_def)
  from sum_bound [OF q] have s: "100000 \<le> double_add 100000 q" "double_add 100000 q < 1000000"
    by (simp_all add: double_add_def)
  from s(1) have "100000 \<le> z" unfolding z_def by (simp add: le_floor_iff)
  moreover from s(2) have "z < 1000000" unfolding z_def by (simp add: floor_less_iff)
  ultimately have z: "100000 \<le> z" "z \<le> 999999" by simp_all
  then have range: "100000 \<le> k" "k \<le> 999999"
    unfolding k_def by linarith+
  from z(1) have "\<not> z < 0" by simp
  then have "toString_int z = toString_nat k"
    by (simp add: toString_int_def k_def)
  then have gen: "generateOTP r = toString_nat k"
    by (simp add: generateOTP_def z_def q_def)
  from range have "length (toString_nat k) = 6" by (intro length_toString_6) simp_all
  moreover have "\<forall>c\<in>set (toString_nat k). is_digit c" by (simp add: toString_nat_digits)
  moreover from range have "hd (toString_nat k) \<noteq> CHR ''0''" by (intro hd_toString_nat) simp
  moreover have "decimal_value (toString_nat k) = k" by (rule decimal_value_toString)
  ultimately show ?thesis using range by (simp add: gen)
qed

theorem generateOTP_six_digits_witness:
  "is_double (1 / 2) \<and> (0::real) \<le> 1 / 2 \<and> (1::real) / 2 < 1
   \<and> generateOTP (1 / 2) = ''550000''
   \<and> length (generateOTP (1 / 2)) = 6 \<and> hd (generateOTP (1 / 2)) \<noteq> CHR ''0''
   \<and> is_digit (hd (generateOTP (1 / 2)))
   \<and> decimal_value (generateOTP (1 / 2)) \<le> 999999"
proof -
  have h: "is_double (1 / 2)" "(0::real) \<le> 1 / 2" "(1::real) / 2 < 1"
    by (simp_all add: is_double_half)
  have g: "generateOTP (1 / 2) = ''550000''" by (rule generateOTP_half)
  then have "hd (generateOTP (1 / 2)) \<in> set (generateOTP (1 / 2))" by simp
  with generateOTP_six_digits [OF h] have "is_digit (hd (generateOTP (1 / 2)))" by blast
  with h g generateOTP_six_digits [OF h] show ?thesis by simp
qed

subsection \<open>The collection\<close>

lemma latest_in_set: "latest xs = Some d \<Longrightarrow> d \<in> set xs"
  by (induction xs arbitrary: d) (auto split: option.splits if_splits)

lemma latest_None_iff: "latest xs = None \<longleftrightarrow> xs = []"
  by (cases xs) (auto split: option.splits)

lemma findOne_latest_SomeD:
  "findOne_latest st e p = Some d \<Longrightarrow> d \<in> set st \<and> matching e p d"
  unfolding findOne_latest_def by (drule latest_in_set) simp

lemma latest_map:
  assumes "\<And>x. x \<in> set xs \<Longrightarrow> createdAt (f x) = createdAt x"
  shows "latest (map f xs) = map_option f (latest xs)"
  using assms
proof (induction xs)
  case Nil
  then show ?case by simp
next
  case (Cons x xs)
  then have IH: "latest (map f xs) = map_option f (latest xs)" by simp
  show ?case
  proof (cases "latest xs")
    case None
    with IH show ?thesis by simp
  next
    case (Some y)
    then have "y \<in> set xs" by (rule latest_in_set)
    with Cons.prems have "createdAt (f y) = createdAt y" "createdAt (f x) = createdAt x" by simp_all
    with IH Some show ?thesis by simp
  qed
qed

lemma in_set_deleteOne: "d \<notin> set (deleteOne d st)"
  by (simp add: deleteOne_def)

lemma save_mem: "d \<in> set st \<Longrightarrow> oid d' = oid d \<Longrightarrow> d' \<in> set (save d' st)"
  by (force simp add: save_def)

lemma save_distinct_eq:
  assumes "distinct (map oid st)" "d \<in> set st" "oid d' = oid d"
  shows "save d' st = map (\<lambda>x. if x = d then d' else x) st"
  unfolding save_def
proof (rule map_cong [OF refl])
  fix x assume "x \<in> set st"
  with assms show "(if oid x = oid d' then d' else x) = (if x = d then d' else x)"
    by (auto simp add: distinct_map dest: inj_onD)
qed

lemma findOne_latest_save:
  assumes dist: "distinct (map oid st)"
    and found: "findOne_latest st e p = Some d"
    and same: "oid d' = oid d" "createdAt d' = createdAt d" "matching e p d'"
  shows "findOne_latest (save d' st) e p = Some d'"
proof -
  from found have d: "d \<in> set st" "matching e p d" by (simp_all add: findOne_latest_SomeD)
  let ?f = "\<lambda>x. if x = d then d' else x"
  have sv: "save d' st = map ?f st" using dist d(1) same(1) by (rule save_distinct_eq)
  have "filter (matching e p) (map ?f st) = map ?f (filter (matching e p \<circ> ?f) st)"
    by (simp add: filter_map)
  also have "filter (matching e p \<circ> ?f) st = filter (matching e p) st"
    by (rule filter_cong) (use d(2) same(3) in auto)
  finally have "findOne_latest (save d' st) e p = latest (map ?f (filter (matching e p) st))"
    by (simp add: findOne_latest_def sv)
  also have "\<dots> = map_option ?f (latest (filter (matching e p) st))"
    by (rule latest_map) (simp add: same(2))
  also have "\<dots> = Some d'" using found by (simp add: findOne_latest_def)
  finally show ?thesis .
qed

lemma findOne_latest_None_iff:
  "findOne_latest st e p = None \<longleftrightarrow> filter (matching e p) st = []"
  by (simp add: findOne_latest_def latest_None_iff)

lemma verifyOTP_not_found:
  "filter (matching e p) st = [] \<Longrightarrow>
   verifyOTP st now e code p =
     (\<lparr>success = False, message = ''OTP not found or already used'', attemptsRemaining = None\<rparr>, st)"
  by (simp add: verifyOTP_def findOne_latest_def)

lemma filter_deleteOne_single:
  assumes "length (filter (matching e p) st) \<le> 1" "d \<in> set st" "matching e p d"
  shows "filter (matching e p) (deleteOne d st) = []"
proof -
  from assms(2,3) have "d \<in> set (filter (matching e p) st)" by simp
  with assms(1) have "filter (matching e p) st = [d]"
    by (cases "filter (matching e p) st") auto
  then have "set (filter (matching e p) st) = {d}" by simp
  then have "\<And>x. x \<in> set st \<Longrightarrow> matching e p x \<Longrightarrow> x = d" by auto
  then show ?thesis
    by (auto simp add: deleteOne_def filter_empty_conv)
qed

subsection \<open>verifyOTP\<close>

lemma verifyOTP_saved_attempts:
  "\<not> hasExceededAttempts d \<Longrightarrow> attempts (d\<lparr>attempts := attempts d + 1\<rparr>) \<le> 5"
  by (simp add: hasExceededAttempts_def)

text \<open>
  C3. When the document that \<open>verifyOTP\<close> fetches (the latest unverified one of the email
  and purpose) is not expired and has fewer than 3 attempts, a code different from the
  stored one makes \<open>verifyOTP\<close> fail with \<open>Invalid OTP. N attempts remaining\<close> and
  \<open>attemptsRemaining = N\<close>, where \<open>N\<close> is 3 minus the attempts after the increment; the
  document is saved with attempts one higher and still unverified, and (with unique
  \<open>_id\<close>s) it is the document the next call fetches.
\<close>

theorem verifyOTP_mismatch:
  assumes found: "findOne_latest st e p = Some d"
    and live: "\<not> isExpired now d"
    and budget: "attempts d < 3"
    and wrong: "otp d \<noteq> code"
  shows "verifyOTP st now e code p =
           (\<lparr>success = False,
             message = ''Invalid OTP. '' @ toString_int (3 - (attempts d + 1)) @ '' attempts remaining'',
             attemptsRemaining = Some (3 - (attempts d + 1))\<rparr>,
            save (d\<lparr>attempts := attempts d + 1\<rparr>) st)
       \<and> d\<lparr>attempts := attempts d + 1\<rparr> \<in> set (save (d\<lparr>attempts := attempts d + 1\<rparr>) st)
       \<and> \<not> verified (d\<lparr>attempts := attempts d + 1\<rparr>)
       \<and> (distinct (map oid st) \<longrightarrow>
            findOne_latest (save (d\<lparr>attempts := attempts d + 1\<rparr>) st) e p
              = Some (d\<lparr>attempts := attempts d + 1\<rparr>))"
proof -
  let ?d' = "d\<lparr>attempts := attempts d + 1\<rparr>"
  from found have d: "d \<in> set st" "matching e p d" by (simp_all add: findOne_latest_SomeD)
  from budget have "\<not> hasExceededAttempts d" by (simp add: hasExceededAttempts_def)
  with found live wrong have "verifyOTP st now e code p =
           (\<lparr>success = False,
             message = ''Invalid OTP. '' @ toString_int (3 - (attempts d + 1)) @ '' attempts remaining'',
             attemptsRemaining = Some (3 - (attempts d + 1))\<rparr>, save ?d' st)"
    by (simp add: verifyOTP_def Let_def)
  moreover from d(1) have "?d' \<in> set (save ?d' st)" by (rule save_mem) simp
  moreover from d(2) have m': "matching e p ?d'" by (simp add: matching_def)
  then have "\<not> verified ?d'" by (simp add: matching_def)
  moreover have "distinct (map oid st) \<longrightarrow> findOne_latest (save ?d' st) e p = Some ?d'"
    using found m' by (auto intro: findOne_latest_save)
  ultimately show ?thesis by blast
qed

theorem verifyOTP_mismatch_witness:
  "findOne_latest [\<lparr>oid = 1, email = ''a@gmail.com'', otp = ''550000'', purpose = email_verification,
       attempts = 1, expiresAt = 60000, verified = False, createdAt = 0\<rparr>]
     ''a@gmail.com'' email_verification
   = Some \<lparr>oid = 1, email = ''a@gmail.com'', otp = ''550000'', purpose = email_verification,
       attempts = 1, expiresAt = 60000, verified = False, createdAt = 0\<rparr>
   \<and> verifyOTP [\<lparr>oid = 1, email = ''a@gmail.com'', otp = ''550000'', purpose = email_verification,
       attempts = 1, expiresAt = 60000, verified = False, createdAt = 0\<rparr>]
       30000 ''a@gmail.com'' ''123456'' email_verification
     = (\<lparr>success = False, message = ''Invalid OTP. 1 attempts remaining'',
         attemptsRemaining = Some 1\<rparr>,
        [\<lparr>oid = 1, email = ''a@gmail.com'', otp = ''550000'', purpose = email_verification,
          attempts = 2, expiresAt = 60000, verified = False, createdAt = 0\<rparr>])
   \<and> findOne_latest
        [\<lparr>oid = 1, email = ''a@gmail.com'', otp = ''550000'', purpose = email_verification,
          attempts = 2, expiresAt = 60000, verified = False, createdAt = 0\<rparr>]
        ''a@gmail.com'' email_verification
     = Some \<lparr>oid = 1, email = ''a@gmail.com'', otp = ''550000'', purpose = email_verification,
          attempts = 2, expiresAt = 60000, verified = False, createdAt = 0\<rparr>"
proof -
  let ?d = "\<lparr>oid = 1, email = ''a@gmail.com'', otp = ''550000'', purpose = email_verification,
       attempts = 1, expiresAt = 60000, verified = False, createdAt = 0\<rparr>"
  have f: "findOne_latest [?d] ''a@gmail.com'' email_verification = Some ?d"
    by (simp add: findOne_latest_def matching_def)
  have l: "\<not> isExpired 30000 ?d" by (simp add: isExpired_def)
  have b: "attempts ?d < 3" by simp
  have w: "otp ?d \<noteq> ''123456''" by simp
  have u: "distinct (map oid [?d])" by simp
  from verifyOTP_mismatch [OF f l b w] u
  have "findOne_latest (save (?d\<lparr>attempts := attempts ?d + 1\<rparr>) [?d]) ''a@gmail.com''
          email_verification = Some (?d\<lparr>attempts := attempts ?d + 1\<rparr>)"
    by blast
  with verifyOTP_mismatch [OF f l b w] f show ?thesis
    by (simp add: save_def string_eval)
qed

text \<open>
  C4, as the code has it. When the fetched document has 3 or more attempts, \<open>verifyOTP\<close>
  fails whatever the code is and deletes the document. The expiry test comes first: on a
  document that is not expired the message is \<open>Too many failed attempts\<close>, on an expired one
  it is \<open>OTP has expired\<close>. With at most one unverified document for the email and purpose,
  every later call finds none (\<open>OTP not found or already used\<close>) until a new code is created.
\<close>

theorem verifyOTP_attempts_exhausted:
  assumes found: "findOne_latest st e p = Some d"
    and spent: "attempts d \<ge> 3"
  shows "verifyOTP st now e code p =
           (\<lparr>success = False,
             message = (if isExpired now d then ''OTP has expired. Please request a new one''
                        else ''Too many failed attempts. Please request a new OTP''),
             attemptsRemaining = None\<rparr>,
            deleteOne d st)
       \<and> d \<notin> set (deleteOne d st)
       \<and> (length (filter (matching e p) st) \<le> 1 \<longrightarrow>
            (\<forall>now' code'. verifyOTP (deleteOne d st) now' e code' p =
               (\<lparr>success = False, message = ''OTP not found or already used'',
                 attemptsRemaining = None\<rparr>, deleteOne d st)))"
proof -
  from found have d: "d \<in> set st" "matching e p d" by (simp_all add: findOne_latest_SomeD)
  from spent have "hasExceededAttempts d" by (simp add: hasExceededAttempts_def)
  with found have "verifyOTP st now e code p =
           (\<lparr>success = False,
             message = (if isExpired now d then ''OTP has expired. Please request a new one''
                        else ''Too many failed attempts. Please request a new OTP''),
             attemptsRemaining = None\<rparr>, deleteOne d st)"
    by (simp add: verifyOTP_def)
  moreover have "d \<notin> set (deleteOne d st)" by (rule in_set_deleteOne)
  moreover have "length (filter (matching e p) st) \<le> 1 \<longrightarrow>
            (\<forall>now' code'. verifyOTP (deleteOne d st) now' e code' p =
               (\<lparr>success = False, message = ''OTP not found or already used'',
                 attemptsRemaining = None\<rparr>, deleteOne d st))"
    using d by (auto intro!: verifyOTP_not_found filter_deleteOne_single)
  ultimately show ?thesis by blast
qed

theorem verifyOTP_attempts_exhausted_witness:
  "findOne_latest [\<lparr>oid = 1, email = ''a@gmail.com'', otp = ''550000'', purpose = email_verification,
       attempts = 3, expiresAt = 60000, verified = False, createdAt = 0\<rparr>]
     ''a@gmail.com'' email_verification
   = Some \<lparr>oid = 1, email = ''a@gmail.com'', otp = ''550000'', purpose = email_verification,
       attempts = 3, expiresAt = 60000, verified = False, createdAt = 0\<rparr>
   \<and> verifyOTP [\<lparr>oid = 1, email = ''a@gmail.com'', otp = ''550000'', purpose = email_verification,
       attempts = 3, expiresAt = 60000, verified = False, createdAt = 0\<rparr>]
       30000 ''a@gmail.com'' ''550000'' email_verification
     = (\<lparr>success = False, message = ''Too many failed attempts. Please request a new OTP'',
         attemptsRemaining = None\<rparr>, [])
   \<and> verifyOTP [] 31000 ''a@gmail.com'' ''550000'' email_verification
     = (\<lparr>success = False, message = ''OTP not found or already used'',
         attemptsRemaining = None\<rparr>, [])"
proof -
  let ?d = "\<lparr>oid = 1, email = ''a@gmail.com'', otp = ''550000'', purpose = email_verification,
       attempts = 3, expiresAt = 60000, verified = False, createdAt = 0\<rparr>"
  have f: "findOne_latest [?d] ''a@gmail.com'' email_verification = Some ?d"
    by (simp add: findOne_latest_def matching_def)
  have b: "attempts ?d \<ge> 3" by simp
  have u: "length (filter (matching ''a@gmail.com'' email_verification) [?d]) \<le> 1" by simp
  from verifyOTP_attempts_exhausted [OF f b, of 30000 "''550000''"] u f show ?thesis
    by (simp add: deleteOne_def isExpired_def)
qed

text \<open>
  The claim as stated fails on a document that has both reached 3 attempts and expired:
  the message is the expiry one.
\<close>

theorem verifyOTP_attempts_exhausted_counterexample:
  "attempts \<lparr>oid = 1, email = ''a@gmail.com'', otp = ''550000'', purpose = email_verification,
       attempts = 3, expiresAt = 60000, verified = False, createdAt = 0\<rparr> = 3
   \<and> verifyOTP [\<lparr>oid = 1, email = ''a@gmail.com'', otp = ''550000'', purpose = email_verification,
       attempts = 3, expiresAt = 60000, verified = False, createdAt = 0\<rparr>]
       120000 ''a@gmail.com'' ''550000'' email_verification
     = (\<lparr>success = False, message = ''OTP has expired. Please request a new one'',
         attemptsRemaining = None\<rparr>, [])"
  by (simp add: verifyOTP_def findOne_latest_def matching_def isExpired_def deleteOne_def)

text \<open>
  C6, as the code has it. \<open>isExpired\<close> is \<open>Date.now() > expiresAt\<close>. A call strictly
  after \<open>expiresAt\<close> deletes the fetched document and fails with \<open>OTP has expired\<close>. A
  call at \<open>now \<le> expiresAt\<close>, the instant \<open>expiresAt\<close> included, is never answered with
  \<open>OTP has expired\<close>: when the document has fewer than 3 attempts the right code
  verifies and the document is saved as verified, and when it has 3 or more the answer is
  \<open>Too many failed attempts\<close>.
\<close>

theorem verifyOTP_expired:
  assumes found: "findOne_latest st e p = Some d"
  shows "(now > expiresAt d \<longrightarrow>
            verifyOTP st now e code p =
              (\<lparr>success = False, message = ''OTP has expired. Please request a new one'',
                attemptsRemaining = None\<rparr>, deleteOne d st)
          \<and> d \<notin> set (deleteOne d st))
       \<and> (now \<le> expiresAt d \<longrightarrow>
            message (fst (verifyOTP st now e code p)) \<noteq> ''OTP has expired. Please request a new one''
          \<and> (attempts d < 3 \<and> otp d = code \<longrightarrow>
               verifyOTP st now e code p =
                 (\<lparr>success = True, message = ''OTP verified successfully'',
                   attemptsRemaining = None\<rparr>,
                  save (d\<lparr>verified := True, attempts := attempts d + 1\<rparr>) st))
          \<and> (attempts d \<ge> 3 \<longrightarrow>
               verifyOTP st now e code p =
                 (\<lparr>success = False,
                   message = ''Too many failed attempts. Please request a new OTP'',
                   attemptsRemaining = None\<rparr>, deleteOne d st)))"
proof -
  have late: "verifyOTP st now e code p =
              (\<lparr>success = False, message = ''OTP has expired. Please request a new one'',
                attemptsRemaining = None\<rparr>, deleteOne d st)
          \<and> d \<notin> set (deleteOne d st)"
    if "now > expiresAt d"
    using found that by (simp add: verifyOTP_def isExpired_def in_set_deleteOne)
  have live: "message (fst (verifyOTP st now e code p)) \<noteq> ''OTP has expired. Please request a new one''"
    if "now \<le> expiresAt d"
    using found that by (simp add: verifyOTP_def isExpired_def Let_def)
  have right: "verifyOTP st now e code p =
                 (\<lparr>success = True, message = ''OTP verified successfully'',
                   attemptsRemaining = None\<rparr>,
                  save (d\<lparr>verified := True, attempts := attempts d + 1\<rparr>) st)"
    if "now \<le> expiresAt d" "attempts d < 3" "otp d = code"
    using found that by (simp add: verifyOTP_def isExpired_def hasExceededAttempts_def Let_def)
  have spent: "verifyOTP st now e code p =
                 (\<lparr>success = False,
                   message = ''Too many failed attempts. Please request a new OTP'',
                   attemptsRemaining = None\<rparr>, deleteOne d st)"
    if "now \<le> expiresAt d" "attempts d \<ge> 3"
    using found that by (simp add: verifyOTP_def isExpired_def hasExceededAttempts_def)
  from late live right spent show ?thesis by blast
qed

theorem verifyOTP_expired_witness:
  "findOne_latest [\<lparr>oid = 1, email = ''a@gmail.com'', otp = ''550000'', purpose = email_verification,
       attempts = 0, expiresAt = 60000, verified = False, createdAt = 0\<rparr>]
     ''a@gmail.com'' email_verification
   = Some \<lparr>oid = 1, email = ''a@gmail.com'', otp = ''550000'', purpose = email_verification,
       attempts = 0, expiresAt = 60000, verified = False, createdAt = 0\<rparr>
   \<and> verifyOTP [\<lparr>oid = 1, email = ''a@gmail.com'', otp = ''550000'', purpose = email_verification,
       attempts = 0, expiresAt = 60000, verified = False, createdAt = 0\<rparr>]
       60001 ''a@gmail.com'' ''550000'' email_verification
     = (\<lparr>success = False, message = ''OTP has expired. Please request a new one'',
         attemptsRemaining = None\<rparr>, [])
   \<and> verifyOTP [\<lparr>oid = 1, email = ''a@gmail.com'', otp = ''550000'', purpose = email_verification,
       attempts = 0, expiresAt = 60000, verified = False, createdAt = 0\<rparr>]
       59000 ''a@gmail.com'' ''550000'' email_verification
     = (\<lparr>success = True, message = ''OTP verified successfully'', attemptsRemaining = None\<rparr>,
        [\<lparr>oid = 1, email = ''a@gmail.com'', otp = ''550000'', purpose = email_verification,
          attempts = 1, expiresAt = 60000, verified = True, createdAt = 0\<rparr>])
   \<and> message (fst (verifyOTP
        [\<lparr>oid = 1, email = ''a@gmail.com'', otp = ''550000'', purpose = email_verification,
          attempts = 0, expiresAt = 60000, verified = False, createdAt = 0\<rparr>]
        59000 ''a@gmail.com'' ''123456'' email_verification))
     \<noteq> ''OTP has expired. Please request a new one''
   \<and> verifyOTP [\<lparr>oid = 1, email = ''a@gmail.com'', otp = ''550000'', purpose = email_verification,
       attempts = 3, expiresAt = 60000, verified = False, createdAt = 0\<rparr>]
       60000 ''a@gmail.com'' ''550000'' email_verification
     = (\<lparr>success = False, message = ''Too many failed attempts. Please request a new OTP'',
         attemptsRemaining = None\<rparr>, [])"
proof -
  let ?d = "\<lparr>oid = 1, email = ''a@gmail.com'', otp = ''550000'', purpose = email_verification,
       attempts = 0, expiresAt = 60000, verified = False, createdAt = 0\<rparr>"
  have f: "findOne_latest [?d] ''a@gmail.com'' email_verification = Some ?d"
    by (simp add: findOne_latest_def matching_def)
  have l: "60001 > expiresAt ?d" by simp
  have b: "59000 \<le> expiresAt ?d" by simp
  have c: "attempts ?d < 3 \<and> otp ?d = ''550000''" by simp
  from verifyOTP_expired [OF f, of 60001 "''550000''"] l
  have 1: "verifyOTP [?d] 60001 ''a@gmail.com'' ''550000'' email_verification
     = (\<lparr>success = False, message = ''OTP has expired. Please request a new one'',
         attemptsRemaining = None\<rparr>, deleteOne ?d [?d])"
    by blast
  from verifyOTP_expired [OF f, of 59000 "''550000''"] b c
  have 2: "verifyOTP [?d] 59000 ''a@gmail.com'' ''550000'' email_verification
     = (\<lparr>success = True, message = ''OTP verified successfully'', attemptsRemaining = None\<rparr>,
        save (?d\<lparr>verified := True, attempts := attempts ?d + 1\<rparr>) [?d])"
    by blast
  from verifyOTP_expired [OF f, of 59000 "''123456''"] b
  have 3: "message (fst (verifyOTP [?d] 59000 ''a@gmail.com'' ''123456'' email_verification))
     \<noteq> ''OTP has expired. Please request a new one''"
    by blast
  let ?x = "\<lparr>oid = 1, email = ''a@gmail.com'', otp = ''550000'', purpose = email_verification,
       attempts = 3, expiresAt = 60000, verified = False, createdAt = 0\<rparr>"
  have fx: "findOne_latest [?x] ''a@gmail.com'' email_verification = Some ?x"
    by (simp add: findOne_latest_def matching_def)
  have bx: "60000 \<le> expiresAt ?x \<and> attempts ?x \<ge> 3" by simp
  from verifyOTP_expired [OF fx, of 60000 "''550000''"] bx
  have 4: "verifyOTP [?x] 60000 ''a@gmail.com'' ''550000'' email_verification
     = (\<lparr>success = False, message = ''Too many failed attempts. Please request a new OTP'',
         attemptsRemaining = None\<rparr>, deleteOne ?x [?x])"
    by blast
  from f 1 2 3 4 show ?thesis by (simp add: deleteOne_def save_def)
qed

text \<open>
  The claim as stated fails at the instant \<open>now = expiresAt\<close>: the document is not yet
  expired for the code, the right code verifies and the document is kept, marked verified.
\<close>

theorem verifyOTP_expired_counterexample:
  "(60000::int) \<ge> expiresAt \<lparr>oid = 1, email = ''a@gmail.com'', otp = ''550000'',
       purpose = email_verification, attempts = 0, expiresAt = 60000, verified = False,
       createdAt = 0\<rparr>
   \<and> verifyOTP [\<lparr>oid = 1, email = ''a@gmail.com'', otp = ''550000'', purpose = email_verification,
       attempts = 0, expiresAt = 60000, verified = False, createdAt = 0\<rparr>]
       60000 ''a@gmail.com'' ''550000'' email_verification
     = (\<lparr>success = True, message = ''OTP verified successfully'', attemptsRemaining = None\<rparr>,
        [\<lparr>oid = 1, email = ''a@gmail.com'', otp = ''550000'', purpose = email_verification,
          attempts = 1, expiresAt = 60000, verified = True, createdAt = 0\<rparr>])"
  by (simp add: verifyOTP_def findOne_latest_def matching_def isExpired_def
      hasExceededAttempts_def save_def)

subsection \<open>createOTP and the single unverified document\<close>

lemma foldr_max_ge: "x \<in> set xs \<Longrightarrow> (x::nat) \<le> foldr max xs 0"
  by (induction xs) auto

lemma oid_less_fresh: "x \<in> set st \<Longrightarrow> oid x < fresh_oid st"
  unfolding fresh_oid_def using foldr_max_ge [of "oid x" "map oid st"] by auto

lemma fresh_oid_notin: "fresh_oid st \<notin> oid ` set st"
  using oid_less_fresh by fastforce

lemma filter_deleteMany_same: "filter (matching e p) (deleteMany e p st) = []"
  by (simp add: deleteMany_def filter_empty_conv)

lemma filter_deleteMany_le:
  "length (filter P (deleteMany e p st)) \<le> length (filter P st)"
  unfolding deleteMany_def
  by (induction st) auto

lemma filter_deleteMany_other:
  "(e', p') \<noteq> (e, p) \<Longrightarrow>
   filter (matching e' p') (deleteMany e p st) = filter (matching e' p') st"
  unfolding deleteMany_def by (induction st) (auto simp add: matching_def)

lemma createOTP_InrD:
  assumes "createOTP st now r e p m = (Inr d, st')"
  shows "e \<noteq> []"
    and "d = \<lparr>oid = fresh_oid st, email = e, otp = generateOTP r, purpose = p, attempts = 0,
               expiresAt = now + m * 60 * 1000, verified = False, createdAt = now\<rparr>"
    and "st' = deleteMany e p st @ [d]"
  using assms by (auto simp add: createOTP_def Let_def split: if_splits)

lemma createOTP_snd:
  "snd (createOTP st now r e p m) =
     (if e = [] then deleteMany e p st
      else deleteMany e p st @ [\<lparr>oid = fresh_oid st, email = e, otp = generateOTP r, purpose = p,
             attempts = 0, expiresAt = now + m * 60 * 1000, verified = False, createdAt = now\<rparr>])"
  by (simp add: createOTP_def Let_def)

lemma distinct_deleteMany: "distinct (map oid st) \<Longrightarrow> distinct (map oid (deleteMany e p st))"
  unfolding deleteMany_def by (rule distinct_map_filter)

lemma set_deleteMany_subset: "set (deleteMany e p st) \<subseteq> set st"
  by (auto simp add: deleteMany_def)

lemma otp_inv_createOTP:
  assumes "otp_inv st"
  shows "otp_inv (snd (createOTP st now r e p m))"
proof -
  let ?d = "\<lparr>oid = fresh_oid st, email = e, otp = generateOTP r, purpose = p,
             attempts = 0, expiresAt = now + m * 60 * 1000, verified = False, createdAt = now\<rparr>"
  let ?st1 = "deleteMany e p st"
  from assms have dist: "distinct (map oid st)"
    and one: "\<And>e' p'. length (filter (matching e' p') st) \<le> 1"
    by (simp_all add: otp_inv_def)
  have d1: "distinct (map oid ?st1)" using dist by (rule distinct_deleteMany)
  have one1: "length (filter (matching e' p') ?st1) \<le> 1" for e' p'
    using filter_deleteMany_le [of "matching e' p'" e p st] one [of e' p'] by linarith
  have "oid ?d \<notin> oid ` set ?st1"
    using fresh_oid_notin [of st] set_deleteMany_subset [of e p st] by auto
  with d1 have d2: "distinct (map oid (?st1 @ [?d]))" by simp
  have one2: "length (filter (matching e' p') (?st1 @ [?d])) \<le> 1" for e' p'
  proof (cases "(e', p') = (e, p)")
    case True
    then show ?thesis by (simp add: filter_deleteMany_same)
  next
    case False
    then have "\<not> matching e' p' ?d" by (auto simp add: matching_def)
    with one1 [of e' p'] show ?thesis by simp
  qed
  have i1: "otp_inv ?st1" unfolding otp_inv_def using d1 one1 by blast
  have i2: "otp_inv (?st1 @ [?d])" unfolding otp_inv_def using d2 one2 by blast
  show ?thesis
  proof (cases "e = []")
    case True
    with i1 show ?thesis by (simp add: createOTP_snd)
  next
    case False
    with i2 show ?thesis by (simp add: createOTP_snd)
  qed
qed

lemma otp_inv_deleteOne: "otp_inv st \<Longrightarrow> otp_inv (deleteOne d st)"
proof -
  assume a: "otp_inv st"
  have "length (filter P (deleteOne d st)) \<le> length (filter P st)" for P
    unfolding deleteOne_def by (induction st) auto
  moreover from a have "\<And>e p. length (filter (matching e p) st) \<le> 1" by (simp add: otp_inv_def)
  ultimately have "length (filter (matching e p) (deleteOne d st)) \<le> 1" for e p
    using le_trans by blast
  moreover from a have "distinct (map oid (deleteOne d st))"
    unfolding deleteOne_def otp_inv_def by (simp add: distinct_map_filter)
  ultimately show ?thesis by (simp add: otp_inv_def)
qed

lemma map_oid_save: "map oid (save d' st) = map oid st"
  by (simp add: save_def)

lemma length_filter_mono:
  "(\<And>x. x \<in> set xs \<Longrightarrow> Q x \<Longrightarrow> P x) \<Longrightarrow> length (filter Q xs) \<le> length (filter P xs)"
  by (induction xs) auto

lemma length_filter_save:
  assumes "distinct (map oid st)" "d \<in> set st" "oid d' = oid d"
    and "P d' \<Longrightarrow> P d"
  shows "length (filter P (save d' st)) \<le> length (filter P st)"
proof -
  let ?f = "\<lambda>x. if x = d then d' else x"
  have "save d' st = map ?f st" using assms(1-3) by (rule save_distinct_eq)
  then have "length (filter P (save d' st)) = length (filter (P \<circ> ?f) st)"
    by (simp add: filter_map)
  also have "\<dots> \<le> length (filter P st)"
    by (rule length_filter_mono) (use assms(4) in \<open>auto split: if_splits\<close>)
  finally show ?thesis .
qed

lemma otp_inv_save:
  assumes "otp_inv st" "d \<in> set st" "oid d' = oid d"
    and "\<And>e p. matching e p d' \<Longrightarrow> matching e p d"
  shows "otp_inv (save d' st)"
proof -
  from assms(1) have dist: "distinct (map oid st)"
    and one: "\<And>e p. length (filter (matching e p) st) \<le> 1"
    by (simp_all add: otp_inv_def)
  have "length (filter (matching e p) (save d' st)) \<le> 1" for e p
    using length_filter_save [OF dist assms(2,3), of "matching e p"] assms(4) [of e p] one [of e p]
    by linarith
  with dist show ?thesis by (simp add: otp_inv_def map_oid_save)
qed

lemma verifyOTP_snd_cases:
  "snd (verifyOTP st now e code p) = st
   \<or> (\<exists>d. findOne_latest st e p = Some d \<and> snd (verifyOTP st now e code p) = deleteOne d st)
   \<or> (\<exists>d. findOne_latest st e p = Some d \<and> attempts d < 3 \<and> otp d \<noteq> code
         \<and> snd (verifyOTP st now e code p) = save (d\<lparr>attempts := attempts d + 1\<rparr>) st)
   \<or> (\<exists>d. findOne_latest st e p = Some d \<and> attempts d < 3 \<and> otp d = code
         \<and> snd (verifyOTP st now e code p) = save (d\<lparr>verified := True, attempts := attempts d + 1\<rparr>) st)"
  by (auto simp add: verifyOTP_def Let_def hasExceededAttempts_def split: option.splits)

lemma otp_inv_verifyOTP:
  assumes "otp_inv st"
  shows "otp_inv (snd (verifyOTP st now e code p))"
proof -
  consider
      (same) "snd (verifyOTP st now e code p) = st"
    | (del) d where "findOne_latest st e p = Some d" "snd (verifyOTP st now e code p) = deleteOne d st"
    | (wrong) d where "findOne_latest st e p = Some d"
        "snd (verifyOTP st now e code p) = save (d\<lparr>attempts := attempts d + 1\<rparr>) st"
    | (right) d where "findOne_latest st e p = Some d"
        "snd (verifyOTP st now e code p) = save (d\<lparr>verified := True, attempts := attempts d + 1\<rparr>) st"
    using verifyOTP_snd_cases [of st now e code p] by blast
  then show ?thesis
  proof cases
    case same
    with assms show ?thesis by simp
  next
    case del
    with assms show ?thesis by (simp add: otp_inv_deleteOne)
  next
    case wrong
    from wrong(1) have "d \<in> set st" by (simp add: findOne_latest_SomeD)
    with assms have "otp_inv (save (d\<lparr>attempts := attempts d + 1\<rparr>) st)"
      by (rule otp_inv_save) (simp_all add: matching_def)
    with wrong(2) show ?thesis by simp
  next
    case right
    from right(1) have "d \<in> set st" by (simp add: findOne_latest_SomeD)
    with assms have "otp_inv (save (d\<lparr>verified := True, attempts := attempts d + 1\<rparr>) st)"
      by (rule otp_inv_save) (simp_all add: matching_def)
    with right(2) show ?thesis by simp
  qed
qed

lemma otp_inv_apply_op: "otp_inv st \<Longrightarrow> otp_inv (apply_op st op)"
  by (cases op) (simp_all add: otp_inv_createOTP otp_inv_verifyOTP otp_inv_deleteOne)

lemma otp_inv_foldl: "otp_inv st \<Longrightarrow> otp_inv (foldl apply_op st ops)"
  by (induction ops arbitrary: st) (simp_all add: otp_inv_apply_op)

lemma otp_inv_empty: "otp_inv []"
  by (simp add: otp_inv_def)

lemma verifyOTP_success_code:
  assumes "filter (matching e p) st = [d]" "success (fst (verifyOTP st now e code p))"
  shows "code = otp d"
  using assms
  by (auto simp add: verifyOTP_def findOne_latest_def Let_def split: if_splits)

text \<open>
  C2, as the code has it. In every collection reached from the empty one by \<open>createOTP\<close>,
  \<open>verifyOTP\<close> and \<open>deleteOne\<close>, an email and purpose have at most one unverified document.
  When \<open>createOTP\<close> returns a document, it is the only unverified one of its email and
  purpose; every earlier unverified document of the pair is gone from the collection; and a
  later \<open>verifyOTP\<close> fails for every code other than the new one. (A code of an earlier
  document that equals the newly drawn code does verify, against the new document.)
\<close>

theorem createOTP_replaces_unverified:
  "length (filter (matching e' p') (foldl apply_op [] ops)) \<le> 1
   \<and> (createOTP st now r e p m = (Inr d, st') \<longrightarrow>
        filter (matching e p) st' = [d]
      \<and> otp d = generateOTP r
      \<and> (\<forall>old\<in>set st. matching e p old \<longrightarrow> old \<notin> set st')
      \<and> (\<forall>code now'. code \<noteq> otp d \<longrightarrow> \<not> success (fst (verifyOTP st' now' e code p))))"
proof -
  have "otp_inv (foldl apply_op [] ops)" using otp_inv_empty by (rule otp_inv_foldl)
  then have reach: "length (filter (matching e' p') (foldl apply_op [] ops)) \<le> 1"
    by (simp add: otp_inv_def)
  have "filter (matching e p) st' = [d]
      \<and> otp d = generateOTP r
      \<and> (\<forall>old\<in>set st. matching e p old \<longrightarrow> old \<notin> set st')
      \<and> (\<forall>code now'. code \<noteq> otp d \<longrightarrow> \<not> success (fst (verifyOTP st' now' e code p)))"
    if c: "createOTP st now r e p m = (Inr d, st')"
  proof -
    note D = createOTP_InrD [OF c]
    have m: "matching e p d" by (subst D(2)) (simp add: matching_def)
    have only: "filter (matching e p) st' = [d]"
      using m by (simp add: D(3) filter_deleteMany_same)
    have code: "otp d = generateOTP r" by (subst D(2)) simp
    have gone: "old \<notin> set st'" if "old \<in> set st" "matching e p old" for old
    proof -
      from that(1) have "oid old < fresh_oid st" by (rule oid_less_fresh)
      moreover have "oid d = fresh_oid st" by (subst D(2)) simp
      ultimately have "old \<noteq> d" by auto
      moreover from that(2) have "old \<notin> set (deleteMany e p st)" by (simp add: deleteMany_def)
      ultimately show ?thesis by (simp add: D(3))
    qed
    have fails: "\<not> success (fst (verifyOTP st' now' e code p))" if "code \<noteq> otp d" for code now'
      using verifyOTP_success_code [OF only] that by blast
    from only code gone fails show ?thesis by blast
  qed
  with reach show ?thesis by blast
qed

theorem createOTP_replaces_unverified_witness:
  "createOTP [\<lparr>oid = 1, email = ''a@gmail.com'', otp = ''123456'', purpose = email_verification,
       attempts = 0, expiresAt = 60000, verified = False, createdAt = 0\<rparr>]
     1000 (1 / 2) ''a@gmail.com'' email_verification 1
   = (Inr \<lparr>oid = 2, email = ''a@gmail.com'', otp = ''550000'', purpose = email_verification,
       attempts = 0, expiresAt = 61000, verified = False, createdAt = 1000\<rparr>,
      [\<lparr>oid = 2, email = ''a@gmail.com'', otp = ''550000'', purpose = email_verification,
       attempts = 0, expiresAt = 61000, verified = False, createdAt = 1000\<rparr>])
   \<and> \<not> success (fst (verifyOTP
        [\<lparr>oid = 2, email = ''a@gmail.com'', otp = ''550000'', purpose = email_verification,
          attempts = 0, expiresAt = 61000, verified = False, createdAt = 1000\<rparr>]
        2000 ''a@gmail.com'' ''123456'' email_verification))
   \<and> \<lparr>oid = 1, email = ''a@gmail.com'', otp = ''123456'', purpose = email_verification,
       attempts = 0, expiresAt = 60000, verified = False, createdAt = 0\<rparr>
     \<notin> set [\<lparr>oid = 2, email = ''a@gmail.com'', otp = ''550000'', purpose = email_verification,
       attempts = 0, expiresAt = 61000, verified = False, createdAt = 1000\<rparr>]"
proof -
  let ?old = "\<lparr>oid = 1, email = ''a@gmail.com'', otp = ''123456'', purpose = email_verification,
       attempts = 0, expiresAt = 60000, verified = False, createdAt = 0\<rparr>"
  let ?new = "\<lparr>oid = 2, email = ''a@gmail.com'', otp = ''550000'', purpose = email_verification,
       attempts = 0, expiresAt = 61000, verified = False, createdAt = 1000\<rparr>"
  have g: "generateOTP (1 / 2) = ''550000''" by (rule generateOTP_half)
  have c: "createOTP [?old] 1000 (1 / 2) ''a@gmail.com'' email_verification 1 = (Inr ?new, [?new])"
    by (simp add: createOTP_def Let_def deleteMany_def matching_def fresh_oid_def g)
  have n: "''123456'' \<noteq> otp ?new" by simp
  from createOTP_replaces_unverified
         [of "''a@gmail.com''" email_verification "[]" "[?old]" 1000 "1 / 2"
             "''a@gmail.com''" email_verification 1 ?new "[?new]"] c n
  have "\<not> success (fst (verifyOTP [?new] 2000 ''a@gmail.com'' ''123456'' email_verification))"
    by blast
  moreover have o: "?old \<in> set [?old] \<and> matching ''a@gmail.com'' email_verification ?old"
    by (simp add: matching_def)
  from createOTP_replaces_unverified
         [of "''a@gmail.com''" email_verification "[]" "[?old]" 1000 "1 / 2"
             "''a@gmail.com''" email_verification 1 ?new "[?new]"] c o
  have "?old \<notin> set [?new]" by blast
  ultimately show ?thesis using c by simp
qed

text \<open>
  The claim as stated fails when the new draw gives the code of the earlier document: that
  code verifies after \<open>createOTP\<close> has returned.
\<close>

theorem createOTP_replaces_unverified_counterexample:
  "createOTP [\<lparr>oid = 1, email = ''a@gmail.com'', otp = ''550000'', purpose = email_verification,
       attempts = 0, expiresAt = 60000, verified = False, createdAt = 0\<rparr>]
     1000 (1 / 2) ''a@gmail.com'' email_verification 1
   = (Inr \<lparr>oid = 2, email = ''a@gmail.com'', otp = ''550000'', purpose = email_verification,
       attempts = 0, expiresAt = 61000, verified = False, createdAt = 1000\<rparr>,
      [\<lparr>oid = 2, email = ''a@gmail.com'', otp = ''550000'', purpose = email_verification,
       attempts = 0, expiresAt = 61000, verified = False, createdAt = 1000\<rparr>])
   \<and> success (fst (verifyOTP
        [\<lparr>oid = 2, email = ''a@gmail.com'', otp = ''550000'', purpose = email_verification,
          attempts = 0, expiresAt = 61000, verified = False, createdAt = 1000\<rparr>]
        2000 ''a@gmail.com'' ''550000'' email_verification))"
proof -
  have g: "generateOTP (1 / 2) = ''550000''" by (rule generateOTP_half)
  show ?thesis
    by (simp add: createOTP_def Let_def deleteMany_def matching_def fresh_oid_def g verifyOTP_def
        findOne_latest_def isExpired_def hasExceededAttempts_def save_def)
qed

section \<open>Properties of the rate limiter\<close>

lemma run_calls_Cons:
  "run_calls m key M W (t # ts) =
     (fst (checkRateLimit m t key M W) # fst (run_calls (snd (checkRateLimit m t key M W)) key M W ts),
      snd (run_calls (snd (checkRateLimit m t key M W)) key M W ts))"
  by (simp add: split_beta)

lemma run_calls_append:
  "run_calls m key M W (ts @ us) =
     (fst (run_calls m key M W ts) @ fst (run_calls (snd (run_calls m key M W ts)) key M W us),
      snd (run_calls (snd (run_calls m key M W ts)) key M W us))"
  by (induction ts arbitrary: m) (simp_all add: run_calls_Cons del: run_calls.simps(2))

lemma checkRateLimit_other_key:
  "key' \<noteq> key \<Longrightarrow> snd (checkRateLimit m now key M W) key' = m key'"
  by (simp add: checkRateLimit_def split: option.splits)

lemma checkRateLimit_stored:
  assumes "1 \<le> M" "\<And>rec. m key = Some rec \<Longrightarrow> 1 \<le> count rec \<and> count rec \<le> M"
  shows "\<exists>rec'. snd (checkRateLimit m now key M W) key = Some rec' \<and> 1 \<le> count rec' \<and> count rec' \<le> M"
proof (cases "m key")
  case None
  with assms(1) show ?thesis by (simp add: checkRateLimit_def)
next
  case (Some rec)
  with assms(2) have "1 \<le> count rec" "count rec \<le> M" by simp_all
  with Some assms(1) show ?thesis by (simp add: checkRateLimit_def)
qed

lemma run_calls_stored:
  assumes "1 \<le> M" "\<And>rec. m key = Some rec \<Longrightarrow> 1 \<le> count rec \<and> count rec \<le> M"
    and "snd (run_calls m key M W ts) key = Some rec'"
  shows "1 \<le> count rec' \<and> count rec' \<le> M"
  using assms(2,3)
proof (induction ts arbitrary: m)
  case Nil
  then show ?case by simp
next
  case (Cons t ts)
  let ?m1 = "snd (checkRateLimit m t key M W)"
  from checkRateLimit_stored [OF assms(1) Cons.prems(1), where now = t and W = W]
  obtain r1 where "?m1 key = Some r1" "1 \<le> count r1 \<and> count r1 \<le> M" by blast
  then have "\<And>rec. ?m1 key = Some rec \<Longrightarrow> 1 \<le> count rec \<and> count rec \<le> M" by simp
  moreover from Cons.prems(2) have "snd (run_calls ?m1 key M W ts) key = Some rec'"
    by (simp add: run_calls_Cons del: run_calls.simps(2))
  ultimately show ?case by (rule Cons.IH)
qed

lemma run_calls_within:
  assumes "m key = Some rec" "\<forall>t\<in>set ts. t \<le> resetTime rec" "int (length ts) = M - count rec"
  shows "map allowed (fst (run_calls m key M W ts)) = replicate (length ts) True
       \<and> snd (run_calls m key M W ts) = m(key \<mapsto> rec\<lparr>count := M\<rparr>)"
  using assms
proof (induction ts arbitrary: m rec)
  case Nil
  then have "count rec = M" by simp
  then have "rec\<lparr>count := M\<rparr> = rec" by simp
  with Nil(1) show ?case by (simp add: map_upd_triv)
next
  case (Cons t ts)
  from Cons.prems(3) have lt: "count rec < M" by simp
  from Cons.prems(2) have t: "\<not> t > resetTime rec" by simp
  let ?rec1 = "rec\<lparr>count := count rec + 1\<rparr>"
  let ?m1 = "m(key \<mapsto> ?rec1)"
  from Cons.prems(1) lt t have step:
    "checkRateLimit m t key M W =
       (\<lparr>allowed = True, remaining = M - (count rec + 1), resetIn = None\<rparr>, ?m1)"
    by (simp add: checkRateLimit_def)
  have "?m1 key = Some ?rec1" by simp
  moreover from Cons.prems(2) have "\<forall>t\<in>set ts. t \<le> resetTime ?rec1" by simp
  moreover from Cons.prems(3) have "int (length ts) = M - count ?rec1" by simp
  ultimately have IH: "map allowed (fst (run_calls ?m1 key M W ts)) = replicate (length ts) True
       \<and> snd (run_calls ?m1 key M W ts) = ?m1(key \<mapsto> ?rec1\<lparr>count := M\<rparr>)"
    by (rule Cons.IH)
  then show ?case by (simp add: run_calls_Cons step del: run_calls.simps(2))
qed

text \<open>
  C5, as the code has it, for a limit \<open>M \<ge> 1\<close>. (a) After any calls for a key, starting
  from the empty map, the stored count is between 1 and \<open>M\<close>. (b) When a call at \<open>t0\<close>
  starts a window (no entry, or \<open>t0\<close> after the stored reset time) and \<open>M - 1\<close> further calls
  and then one more come no later than \<open>t0 + W\<close>, the first \<open>M\<close> calls are allowed and the
  \<open>(M+1)\<close>-th is rejected with \<open>resetIn\<close> the minutes left until \<open>t0 + W\<close>, rounded up; the
  count stays \<open>M\<close>. (c) A call strictly after the stored reset time is allowed and restarts
  the window with count 1 and reset time \<open>now + W\<close>.
\<close>

theorem checkRateLimit_window:
  assumes "1 \<le> M"
  shows "(\<forall>rec. snd (run_calls Map.empty key M W ts) key = Some rec \<longrightarrow>
            1 \<le> count rec \<and> count rec \<le> M)
       \<and> ((m key = None \<or> (\<exists>rec. m key = Some rec \<and> t0 > resetTime rec))
            \<and> int (length us) = M - 1 \<and> (\<forall>u\<in>set us. u \<le> t0 + W) \<and> t \<le> t0 + W \<longrightarrow>
            map allowed (fst (run_calls m key M W (t0 # us @ [t])))
              = replicate (nat M) True @ [False]
          \<and> resetIn (last (fst (run_calls m key M W (t0 # us @ [t]))))
              = Some \<lceil>real_of_int (t0 + W - t) / 1000 / 60\<rceil>
          \<and> snd (run_calls m key M W (t0 # us @ [t])) key = Some \<lparr>count = M, resetTime = t0 + W\<rparr>)
       \<and> (m key = Some rec \<and> now > resetTime rec \<longrightarrow>
            checkRateLimit m now key M W =
              (\<lparr>allowed = True, remaining = M - 1, resetIn = None\<rparr>,
               m(key \<mapsto> \<lparr>count = 1, resetTime = now + W\<rparr>)))"
proof -
  have a: "\<forall>rec. snd (run_calls Map.empty key M W ts) key = Some rec \<longrightarrow>
            1 \<le> count rec \<and> count rec \<le> M"
    using run_calls_stored [OF assms, where m = Map.empty and key = key and W = W and ts = ts] by simp
  have c: "m key = Some rec \<and> now > resetTime rec \<longrightarrow>
            checkRateLimit m now key M W =
              (\<lparr>allowed = True, remaining = M - 1, resetIn = None\<rparr>,
               m(key \<mapsto> \<lparr>count = 1, resetTime = now + W\<rparr>))"
    by (simp add: checkRateLimit_def)
  have b: "map allowed (fst (run_calls m key M W (t0 # us @ [t])))
              = replicate (nat M) True @ [False]
          \<and> resetIn (last (fst (run_calls m key M W (t0 # us @ [t]))))
              = Some \<lceil>real_of_int (t0 + W - t) / 1000 / 60\<rceil>
          \<and> snd (run_calls m key M W (t0 # us @ [t])) key = Some \<lparr>count = M, resetTime = t0 + W\<rparr>"
    if fresh: "m key = None \<or> (\<exists>rec. m key = Some rec \<and> t0 > resetTime rec)"
      and len: "int (length us) = M - 1" and win: "\<forall>u\<in>set us. u \<le> t0 + W" and last: "t \<le> t0 + W"
  proof -
    let ?r1 = "\<lparr>count = 1, resetTime = t0 + W\<rparr>"
    let ?m1 = "m(key \<mapsto> ?r1)"
    from fresh have first: "checkRateLimit m t0 key M W =
        (\<lparr>allowed = True, remaining = M - 1, resetIn = None\<rparr>, ?m1)"
      by (auto simp add: checkRateLimit_def)
    have "?m1 key = Some ?r1" by simp
    moreover from win have "\<forall>u\<in>set us. u \<le> resetTime ?r1" by simp
    moreover from len have "int (length us) = M - count ?r1" by simp
    ultimately have mid: "map allowed (fst (run_calls ?m1 key M W us)) = replicate (length us) True
       \<and> snd (run_calls ?m1 key M W us) = ?m1(key \<mapsto> ?r1\<lparr>count := M\<rparr>)"
      by (rule run_calls_within)
    let ?m2 = "m(key \<mapsto> \<lparr>count = M, resetTime = t0 + W\<rparr>)"
    from last have final: "checkRateLimit ?m2 t key M W =
        (\<lparr>allowed = False, remaining = 0,
          resetIn = Some \<lceil>real_of_int (t0 + W - t) / 1000 / 60\<rceil>\<rparr>, ?m2)"
      by (simp add: checkRateLimit_def)
    from len assms have n: "nat M = Suc (length us)" by linarith
    show ?thesis
      by (simp add: run_calls_Cons run_calls_append first mid final n del: run_calls.simps(2))
  qed
  from a b c show ?thesis by blast
qed

theorem checkRateLimit_window_witness:
  "(1::int) \<le> 3
   \<and> map allowed (fst (run_calls Map.empty ''signup:a@gmail.com'' 3 900000 [0, 1000, 2000, 3000]))
       = [True, True, True, False]
   \<and> resetIn (last (fst (run_calls Map.empty ''signup:a@gmail.com'' 3 900000 [0, 1000, 2000, 3000])))
       = Some 15
   \<and> fst (checkRateLimit [''signup:a@gmail.com'' \<mapsto> \<lparr>count = 3, resetTime = 900000\<rparr>]
            900001 ''signup:a@gmail.com'' 3 900000)
       = \<lparr>allowed = True, remaining = 2, resetIn = None\<rparr>
   \<and> snd (run_calls Map.empty ''signup:a@gmail.com'' 3 900000 [0, 1000, 2000, 3000])
         ''signup:a@gmail.com''
       = Some \<lparr>count = 3, resetTime = 900000\<rparr>"
proof -
  have h: "(1::int) \<le> 3" by simp
  let ?k = "''signup:a@gmail.com''"
  let ?m = "[?k \<mapsto> \<lparr>count = 3, resetTime = 900000\<rparr>]"
  note T = checkRateLimit_window [OF h, where key = ?k and W = 900000 and ts = "[]"
      and m = Map.empty and ?t0.0 = 0 and us = "[1000, 2000]" and t = 3000]
  have b: "(Map.empty ?k = None \<or> (\<exists>rec. Map.empty ?k = Some rec \<and> (0::int) > resetTime rec))
      \<and> int (length [1000, 2000 :: int]) = 3 - 1
      \<and> (\<forall>u\<in>set [1000, 2000 :: int]. u \<le> 0 + 900000) \<and> (3000::int) \<le> 0 + 900000"
    by simp
  note U = checkRateLimit_window [OF h, where key = ?k and W = 900000 and ts = "[]"
      and m = ?m and rec = "\<lparr>count = 3, resetTime = 900000\<rparr>" and now = 900001]
  have c: "?m ?k = Some \<lparr>count = 3, resetTime = 900000\<rparr>
      \<and> (900001::int) > resetTime \<lparr>count = 3, resetTime = 900000\<rparr>"
    by simp
  have n: "replicate (nat 3) True @ [False] = [True, True, True, False]"
    by (simp add: eval_nat_numeral)
  have q: "\<lceil>real_of_int (0 + 900000 - 3000) / 1000 / 60\<rceil> = (15::int)"
    by (simp add: ceiling_eq_iff)
  from T b have "map allowed (fst (run_calls Map.empty ?k 3 900000 (0 # [1000, 2000] @ [3000])))
              = replicate (nat 3) True @ [False]
          \<and> resetIn (last (fst (run_calls Map.empty ?k 3 900000 (0 # [1000, 2000] @ [3000]))))
              = Some \<lceil>real_of_int (0 + 900000 - 3000) / 1000 / 60\<rceil>
          \<and> snd (run_calls Map.empty ?k 3 900000 (0 # [1000, 2000] @ [3000])) ?k
              = Some \<lparr>count = 3, resetTime = 0 + 900000\<rparr>"
    by blast
  moreover from U c have "checkRateLimit ?m 900001 ?k 3 900000 =
              (\<lparr>allowed = True, remaining = 3 - 1, resetIn = None\<rparr>,
               ?m(?k \<mapsto> \<lparr>count = 1, resetTime = 900001 + 900000\<rparr>))"
    by blast
  ultimately show ?thesis by (simp only: n q append_Cons append_Nil fst_conv) simp
qed

text \<open>
  The claim as stated fails at the instant \<open>now = resetTime\<close>: the test is
  \<open>now > record.resetTime\<close>, so a key that has used its \<open>M\<close> calls is still rejected, with
  0 minutes to wait. It also needs \<open>M \<ge> 1\<close>: with \<open>M = 0\<close> the first call is allowed and
  stores the count 1.
\<close>

theorem checkRateLimit_window_counterexample:
  "(900000::int) \<ge> resetTime \<lparr>count = 3, resetTime = 900000\<rparr>
   \<and> fst (checkRateLimit [''signup:a@gmail.com'' \<mapsto> \<lparr>count = 3, resetTime = 900000\<rparr>]
            900000 ''signup:a@gmail.com'' 3 900000)
       = \<lparr>allowed = False, remaining = 0, resetIn = Some 0\<rparr>
   \<and> fst (checkRateLimit Map.empty 0 ''signup:a@gmail.com'' 0 900000)
       = \<lparr>allowed = True, remaining = - 1, resetIn = None\<rparr>
   \<and> snd (checkRateLimit Map.empty 0 ''signup:a@gmail.com'' 0 900000) ''signup:a@gmail.com''
       = Some \<lparr>count = 1, resetTime = 900000\<rparr>"
  by (simp add: checkRateLimit_def)

section \<open>Properties of the routes\<close>

lemmas route_eval =
  normalize_email_def trim_def toLowerCase_def is_space_def is_upper_def is_lower_def is_digit_def
  isValidEmail_def isGmailAddress_def endsWith_def isStrongPassword_def reply_def
  retry_message_def purpose_of_string_def findUser_def checkRateLimit_def createOTP_def
  deleteMany_def deleteOne_def matching_def fresh_oid_def generateOTP_half Let_def
  sample_env_def sample_user_def

subsection \<open>Sending fails after the code was created\<close>

text \<open>
  The outcome of the send has no influence on what \<open>/resend-otp\<close>,
  \<open>/forgot-password/request-otp\<close> and \<open>/login\<close> answer or store.
\<close>

lemma resend_otp_ignores_send:
  "resend_otp (env\<lparr>mail_error := x\<rparr>) s e p = resend_otp (env\<lparr>mail_error := y\<rparr>) s e p"
  by (simp add: resend_otp_def Let_def split_beta split: option.splits
        cong: option.case_cong prod.case_cong sum.case_cong if_cong)

lemma forgot_password_request_otp_ignores_send:
  "forgot_password_request_otp (env\<lparr>mail_error := x\<rparr>) s e
     = forgot_password_request_otp (env\<lparr>mail_error := y\<rparr>) s e"
  by (simp add: forgot_password_request_otp_def Let_def split_beta split: option.splits
        cong: option.case_cong prod.case_cong sum.case_cong if_cong)

lemma login_ignores_send:
  "login (env\<lparr>mail_error := x\<rparr>) s e p = login (env\<lparr>mail_error := y\<rparr>) s e p"
  by (simp add: login_def Let_def split_beta split: option.splits
        cong: option.case_cong prod.case_cong sum.case_cong if_cong)

lemma set_deleteOne_subset: "set (deleteOne d st) \<subseteq> set st"
  by (auto simp add: deleteOne_def)

lemma createOTP_rollback:
  assumes "createOTP st now r e p m = (Inr d, st')"
  shows "deleteOne d st' = deleteMany e p st"
proof -
  note D = createOTP_InrD [OF assms]
  have "oid d = fresh_oid st" by (subst D(2)) simp
  moreover have "\<And>x. x \<in> set (deleteMany e p st) \<Longrightarrow> oid x \<noteq> fresh_oid st"
    using oid_less_fresh set_deleteMany_subset by fastforce
  ultimately show ?thesis
    by (simp add: D(3) deleteOne_def filter_id_conv)
qed

lemma createOTP_Inl_snd:
  "createOTP st now r e p m = (Inl err, st') \<Longrightarrow> st' = deleteMany e p st"
  by (auto simp add: createOTP_def Let_def split: if_splits)

lemma createOTP_fst_Inl:
  "fst (createOTP st now r e p m) = Inl err \<Longrightarrow> snd (createOTP st now r e p m) = deleteMany e p st"
  using createOTP_Inl_snd [of st now r e p m err "snd (createOTP st now r e p m)"]
  by (metis prod.collapse)

lemma createOTP_fst_Inr:
  "fst (createOTP st now r e p m) = Inr d \<Longrightarrow>
   deleteOne d (snd (createOTP st now r e p m)) = deleteMany e p st"
  using createOTP_rollback [of st now r e p m d "snd (createOTP st now r e p m)"]
  by (metis prod.collapse)

lemma signup_request_otp_rollback:
  assumes "mail_error env = Some err"
  shows "status (fst (signup_request_otp env s name e pw)) \<noteq> 200
       \<and> (otps (snd (signup_request_otp env s name e pw)) = otps s
          \<or> otps (snd (signup_request_otp env s name e pw))
               = deleteMany (normalize_email e) email_verification (otps s))"
  using assms
  by (simp add: signup_request_otp_def Let_def reply_def split_beta createOTP_fst_Inl
        createOTP_fst_Inr split: sum.splits option.splits)

text \<open>
  C1 at a failing input. The email service throws; \<open>/signup/request-otp\<close> takes the code
  back and answers 500, but \<open>/resend-otp\<close> and \<open>/forgot-password/request-otp\<close> answer
  200 and \<open>/login\<close> (for an unverified user) answers that a new code has been sent, and
  the code that was never delivered stays in the collection.
\<close>

theorem unsent_code_reported_as_sent:
  "signup_request_otp (sample_env (Some ''Failed to send email: timeout''))
       \<lparr>rateLimitMap = Map.empty, otps = [], users = []\<rparr> ''Ann'' ''a@gmail.com'' ''Passw0rdX''
     = (reply 500 ''Failed to send verification email. Please try again.'',
        \<lparr>rateLimitMap = [''signup:a@gmail.com'' \<mapsto> \<lparr>count = 1, resetTime = 901000\<rparr>],
         otps = [], users = []\<rparr>)
   \<and> resend_otp (sample_env (Some ''Failed to send email: timeout''))
       \<lparr>rateLimitMap = Map.empty, otps = [], users = []\<rparr> ''a@gmail.com'' ''email_verification''
     = ((reply 200 ''OTP sent successfully'')\<lparr>expiresIn := Some 60\<rparr>,
        \<lparr>rateLimitMap =
           [''resend:a@gmail.com:email_verification'' \<mapsto> \<lparr>count = 1, resetTime = 901000\<rparr>],
         otps = [\<lparr>oid = 1, email = ''a@gmail.com'', otp = ''550000'', purpose = email_verification,
                  attempts = 0, expiresAt = 61000, verified = False, createdAt = 1000\<rparr>],
         users = []\<rparr>)
   \<and> forgot_password_request_otp (sample_env (Some ''Failed to send email: timeout''))
       \<lparr>rateLimitMap = Map.empty, otps = [], users = [sample_user True]\<rparr> ''a@gmail.com''
     = ((reply 200 ''Password reset OTP sent to your email'')\<lparr>expiresIn := Some 60\<rparr>,
        \<lparr>rateLimitMap = [''forgot:a@gmail.com'' \<mapsto> \<lparr>count = 1, resetTime = 901000\<rparr>],
         otps = [\<lparr>oid = 1, email = ''a@gmail.com'', otp = ''550000'', purpose = password_reset,
                  attempts = 0, expiresAt = 61000, verified = False, createdAt = 1000\<rparr>],
         users = [sample_user True]\<rparr>)
   \<and> login (sample_env (Some ''Failed to send email: timeout''))
       \<lparr>rateLimitMap = Map.empty, otps = [], users = [sample_user False]\<rparr>
       ''a@gmail.com'' ''Passw0rdX''
     = ((reply 403 ''Email not verified. A new verification OTP has been sent to your email'')
           \<lparr>requiresVerification := Some True, body_email := Some ''a@gmail.com''\<rparr>,
        \<lparr>rateLimitMap = [''login:a@gmail.com'' \<mapsto> \<lparr>count = 1, resetTime = 901000\<rparr>],
         otps = [\<lparr>oid = 1, email = ''a@gmail.com'', otp = ''550000'', purpose = email_verification,
                  attempts = 0, expiresAt = 601000, verified = False, createdAt = 1000\<rparr>],
         users = [sample_user False]\<rparr>)"
proof -
  have "signup_request_otp (sample_env (Some ''Failed to send email: timeout''))
       \<lparr>rateLimitMap = Map.empty, otps = [], users = []\<rparr> ''Ann'' ''a@gmail.com'' ''Passw0rdX''
     = (reply 500 ''Failed to send verification email. Please try again.'',
        \<lparr>rateLimitMap = [''signup:a@gmail.com'' \<mapsto> \<lparr>count = 1, resetTime = 901000\<rparr>],
         otps = [], users = []\<rparr>)"
    by (simp add: signup_request_otp_def route_eval string_eval)
  moreover have "resend_otp (sample_env (Some ''Failed to send email: timeout''))
       \<lparr>rateLimitMap = Map.empty, otps = [], users = []\<rparr> ''a@gmail.com'' ''email_verification''
     = ((reply 200 ''OTP sent successfully'')\<lparr>expiresIn := Some 60\<rparr>,
        \<lparr>rateLimitMap =
           [''resend:a@gmail.com:email_verification'' \<mapsto> \<lparr>count = 1, resetTime = 901000\<rparr>],
         otps = [\<lparr>oid = 1, email = ''a@gmail.com'', otp = ''550000'', purpose = email_verification,
                  attempts = 0, expiresAt = 61000, verified = False, createdAt = 1000\<rparr>],
         users = []\<rparr>)"
    by (simp add: resend_otp_def route_eval string_eval)
  moreover have "forgot_password_request_otp (sample_env (Some ''Failed to send email: timeout''))
       \<lparr>rateLimitMap = Map.empty, otps = [], users = [sample_user True]\<rparr> ''a@gmail.com''
     = ((reply 200 ''Password reset OTP sent to your email'')\<lparr>expiresIn := Some 60\<rparr>,
        \<lparr>rateLimitMap = [''forgot:a@gmail.com'' \<mapsto> \<lparr>count = 1, resetTime = 901000\<rparr>],
         otps = [\<lparr>oid = 1, email = ''a@gmail.com'', otp = ''550000'', purpose = password_reset,
                  attempts = 0, expiresAt = 61000, verified = False, createdAt = 1000\<rparr>],
         users = [sample_user True]\<rparr>)"
    by (simp add: forgot_password_request_otp_def route_eval string_eval)
  moreover have "login (sample_env (Some ''Failed to send email: timeout''))
       \<lparr>rateLimitMap = Map.empty, otps = [], users = [sample_user False]\<rparr>
       ''a@gmail.com'' ''Passw0rdX''
     = ((reply 403 ''Email not verified. A new verification OTP has been sent to your email'')
           \<lparr>requiresVerification := Some True, body_email := Some ''a@gmail.com''\<rparr>,
        \<lparr>rateLimitMap = [''login:a@gmail.com'' \<mapsto> \<lparr>count = 1, resetTime = 901000\<rparr>],
         otps = [\<lparr>oid = 1, email = ''a@gmail.com'', otp = ''550000'', purpose = email_verification,
                  attempts = 0, expiresAt = 601000, verified = False, createdAt = 1000\<rparr>],
         users = [sample_user False]\<rparr>)"
    by (simp add: login_def route_eval string_eval)
  ultimately show ?thesis by (simp only: simp_thms)
qed

subsection \<open>POST /signup/verify-otp\<close>

lemma verifyOTP_success_cases:
  assumes "success (fst (verifyOTP st now e code p))"
  shows "\<exists>d. findOne_latest st e p = Some d \<and> otp d = code \<and> \<not> isExpired now d
             \<and> attempts d < 3
             \<and> snd (verifyOTP st now e code p)
                 = save (d\<lparr>verified := True, attempts := attempts d + 1\<rparr>) st"
  using assms
  by (auto simp add: verifyOTP_def Let_def hasExceededAttempts_def
        split: option.splits if_splits)

lemma filter_save_verified:
  assumes "distinct (map oid st)" "filter (matching e p) st = [d]" "verified d'" "oid d' = oid d"
  shows "filter (matching e p) (save d' st) = []"
proof -
  from assms(2) have "set (filter (matching e p) st) = {d}" by simp
  then have d: "d \<in> set st" and only: "\<And>x. x \<in> set st \<Longrightarrow> matching e p x \<Longrightarrow> x = d"
    by auto
  have "save d' st = map (\<lambda>x. if x = d then d' else x) st"
    using assms(1) d assms(4) by (rule save_distinct_eq)
  moreover from assms(3) have "\<not> matching e p d'" by (simp add: matching_def)
  ultimately show ?thesis using only by (auto simp add: filter_empty_conv)
qed

lemma findOne_latest_single:
  assumes "findOne_latest st e p = Some d" "length (filter (matching e p) st) \<le> 1"
  shows "filter (matching e p) st = [d]"
proof -
  from assms(1) have "d \<in> set (filter (matching e p) st)"
    using findOne_latest_SomeD by fastforce
  with assms(2) show ?thesis by (cases "filter (matching e p) st") auto
qed

text \<open>
  C9. Whenever \<open>/signup/verify-otp\<close> answers 400 \<open>Email already registered\<close>, \<open>verifyOTP\<close>
  has run before the user was looked up and has succeeded: the fetched document carried
  the submitted code, and the state the route leaves differs from the one it found in that
  this document is saved as verified with one more attempt. The code is used up: in a
  collection with unique \<open>_id\<close>s and at most one unverified document per email and purpose,
  every later \<open>verifyOTP\<close> for the email answers \<open>OTP not found or already used\<close>.
\<close>

theorem signup_verify_otp_consumes_code:
  assumes "fst (signup_verify_otp env s name e pw code) = reply 400 ''Email already registered''"
  shows "\<exists>d u. findOne_latest (otps s) (normalize_email e) email_verification = Some d
           \<and> otp d = code \<and> \<not> isExpired (clock env) d \<and> attempts d < 3
           \<and> findUser (users s) (normalize_email e) = Some u \<and> isEmailVerified u
           \<and> snd (signup_verify_otp env s name e pw code)
               = s\<lparr>otps := save (d\<lparr>verified := True, attempts := attempts d + 1\<rparr>) (otps s)\<rparr>
           \<and> (otp_inv (otps s) \<longrightarrow>
                (\<forall>now' code'. verifyOTP (otps (snd (signup_verify_otp env s name e pw code))) now'
                     (normalize_email e) code' email_verification
                   = (\<lparr>success = False, message = ''OTP not found or already used'',
                       attemptsRemaining = None\<rparr>,
                      otps (snd (signup_verify_otp env s name e pw code)))))"
proof -
  let ?ne = "normalize_email e"
  let ?v = "verifyOTP (otps s) (clock env) ?ne code email_verification"
  have msgs: "message (fst ?v) \<noteq> ''Email already registered''"
    by (auto simp add: verifyOTP_def Let_def split: option.splits)
  from assms have fields: "name \<noteq> []" "e \<noteq> []" "pw \<noteq> []" "code \<noteq> []"
    by (auto simp add: signup_verify_otp_def reply_def split: if_splits)
  from assms fields msgs have ok: "success (fst ?v)"
    by (auto simp add: signup_verify_otp_def Let_def split_beta reply_def split: if_splits)
  from assms fields ok obtain u where u: "findUser (users s) ?ne = Some u" "isEmailVerified u"
    by (auto simp add: signup_verify_otp_def Let_def split_beta reply_def
          split: if_splits option.splits)
  from fields ok u have st: "snd (signup_verify_otp env s name e pw code) = s\<lparr>otps := snd ?v\<rparr>"
    by (simp add: signup_verify_otp_def Let_def split_beta)
  from verifyOTP_success_cases [OF ok] obtain d where
    d: "findOne_latest (otps s) ?ne email_verification = Some d" "otp d = code"
       "\<not> isExpired (clock env) d" "attempts d < 3"
       "snd ?v = save (d\<lparr>verified := True, attempts := attempts d + 1\<rparr>) (otps s)"
    by blast
  have used: "verifyOTP (otps (snd (signup_verify_otp env s name e pw code))) now' ?ne code'
                 email_verification
               = (\<lparr>success = False, message = ''OTP not found or already used'',
                   attemptsRemaining = None\<rparr>,
                  otps (snd (signup_verify_otp env s name e pw code)))"
    if inv: "otp_inv (otps s)" for now' code'
  proof -
    from inv have dist: "distinct (map oid (otps s))"
      and one: "length (filter (matching ?ne email_verification) (otps s)) \<le> 1"
      by (simp_all add: otp_inv_def)
    from d(1) one have "filter (matching ?ne email_verification) (otps s) = [d]"
      by (rule findOne_latest_single)
    with dist have "filter (matching ?ne email_verification)
        (save (d\<lparr>verified := True, attempts := attempts d + 1\<rparr>) (otps s)) = []"
      by (rule filter_save_verified) simp_all
    then show ?thesis by (simp add: st d(5) verifyOTP_not_found)
  qed
  from d u st used show ?thesis by (auto simp add: d(5))
qed

theorem signup_verify_otp_consumes_code_witness:
  "fst (signup_verify_otp (sample_env None)
          \<lparr>rateLimitMap = Map.empty,
           otps = [\<lparr>oid = 1, email = ''a@gmail.com'', otp = ''550000'',
                    purpose = email_verification, attempts = 0, expiresAt = 60000,
                    verified = False, createdAt = 0\<rparr>],
           users = [sample_user True]\<rparr>
          ''Ann'' ''a@gmail.com'' ''Passw0rdX'' ''550000'')
     = reply 400 ''Email already registered''
   \<and> otps (snd (signup_verify_otp (sample_env None)
          \<lparr>rateLimitMap = Map.empty,
           otps = [\<lparr>oid = 1, email = ''a@gmail.com'', otp = ''550000'',
                    purpose = email_verification, attempts = 0, expiresAt = 60000,
                    verified = False, createdAt = 0\<rparr>],
           users = [sample_user True]\<rparr>
          ''Ann'' ''a@gmail.com'' ''Passw0rdX'' ''550000''))
     = [\<lparr>oid = 1, email = ''a@gmail.com'', otp = ''550000'', purpose = email_verification,
         attempts = 1, expiresAt = 60000, verified = True, createdAt = 0\<rparr>]"
proof -
  let ?d = "\<lparr>oid = 1, email = ''a@gmail.com'', otp = ''550000'',
                    purpose = email_verification, attempts = 0, expiresAt = 60000,
                    verified = False, createdAt = 0\<rparr>"
  let ?s = "\<lparr>rateLimitMap = Map.empty, otps = [?d], users = [sample_user True]\<rparr>"
  let ?r = "signup_verify_otp (sample_env None) ?s ''Ann'' ''a@gmail.com'' ''Passw0rdX'' ''550000''"
  have h: "fst ?r = reply 400 ''Email already registered''"
    by (simp add: signup_verify_otp_def verifyOTP_def findOne_latest_def isExpired_def
        hasExceededAttempts_def save_def route_eval)
  have f: "findOne_latest (otps ?s) (normalize_email ''a@gmail.com'') email_verification = Some ?d"
    by (simp add: findOne_latest_def route_eval)
  from signup_verify_otp_consumes_code [OF h] f
  have "snd ?r = ?s\<lparr>otps := save (?d\<lparr>verified := True, attempts := attempts ?d + 1\<rparr>) (otps ?s)\<rparr>"
    by auto
  then have "otps (snd ?r) = [?d\<lparr>verified := True, attempts := 1\<rparr>]"
    by (simp add: save_def)
  with h show ?thesis by simp
qed

subsection \<open>POST /reset-password\<close>




end
